theory Spec2Isabelle
  imports Complex_Main
begin

section \<open>AmyPET: acquisition classification, frame alignment, static image and VOI sampling\<close>

text \<open>
  A shallow embedding of \<^verbatim>\<open>src/amypet/preproc.py\<close> (\<^verbatim>\<open>explore_input\<close>,
  \<^verbatim>\<open>align_suvr\<close>) and \<^verbatim>\<open>src/amypet/suvr_tools.py\<close> (\<^verbatim>\<open>preproc_suvr\<close>,
  \<^verbatim>\<open>extract_vois\<close>).
  Python exceptions are values of the type \<open>error\<close>; a function that may raise returns
  \<open>error + 'a\<close> with \<open>Inl\<close> for the exception.
\<close>

subsection \<open>Exceptions\<close>

datatype error =
    ValueError
  | TypeError
  | IndexError
  | KeyError
  | AttributeError
  | UnboundLocalError
  | StopIteration

subsection \<open>Configuration constants (preproc.py, lines 33--54)\<close>

text \<open>\<^verbatim>\<open>suvr_twindow\<close>: per tracer, the SUVr window start, stop and the duration, in
  seconds; the dictionary's insertion order is the order of the list.\<close>

definition suvr_twindow :: "(string \<times> (int \<times> int \<times> int)) list" where
  "suvr_twindow =
     [(''flute'', (90*60, 110*60, 1200)),
      (''fbb'', (90*60, 110*60, 1200)),
      (''fbp'', (50*60, 60*60, 600))]"

text \<open>
  The margin and the products with it are Python floats, that is IEEE binary64 numbers. A
  finite binary64 number is the rational it denotes; \<open>fl\<close> rounds a rational to the
  nearest binary64 number, ties to the even significand, as the float literal, the
  conversion of an integer and every float operation do. Overflow and subnormal numbers
  are outside the model: the values here are seconds.
\<close>

fun bitlen_nat :: "nat \<Rightarrow> nat" where
  "bitlen_nat n = (if n = 0 then 0 else Suc (bitlen_nat (n div 2)))"

declare bitlen_nat.simps [simp del]

definition pow2 :: "int \<Rightarrow> rat" where
  "pow2 e = (if 0 \<le> e then 2 ^ nat e else 1 / 2 ^ nat (- e))"

text \<open>The integer \<open>k\<close> with \<open>2^k \<le> x < 2^(k+1)\<close>, for a positive \<open>x\<close>.\<close>

definition floor_log2 :: "rat \<Rightarrow> int" where
  "floor_log2 x =
     (if 1 \<le> x then int (bitlen_nat (nat \<lfloor>x\<rfloor>)) - 1
      else - int (bitlen_nat (nat (\<lceil>1 / x\<rceil> - 1))))"

definition round_half_even :: "rat \<Rightarrow> int" where
  "round_half_even x =
     (let f = \<lfloor>x\<rfloor>; d = x - of_int f in
      if d < 1 / 2 then f
      else if 1 / 2 < d then f + 1
      else if even f then f else f + 1)"

definition fl :: "rat \<Rightarrow> rat" where
  "fl x =
     (if x = 0 then 0
      else
        let a = \<bar>x\<bar>;
            e = floor_log2 a - 52;
            m = round_half_even (a / pow2 e)
        in sgn x * of_int m * pow2 e)"

text \<open>\<^verbatim>\<open>margin = 0.1\<close>, and the product \<^verbatim>\<open>n * f\<close> of a Python integer and a float: the
  integer is converted to a float and the product is rounded.\<close>

definition margin :: rat where
  "margin = fl (1 / 10)"

definition int_times_float :: "int \<Rightarrow> rat \<Rightarrow> rat" where
  "int_times_float n f = fl (fl (of_int n) * f)"

definition tracer_names :: "(string \<times> string list) list" where
  "tracer_names =
     [(''flute'', [''flt'', ''flut'', ''flute'', ''flutemetamol'']),
      (''fbb'', [''fbb'', ''florbetaben'']),
      (''fbp'', [''fbp'', ''florbetapir''])]"

definition break_time :: int where
  "break_time = 1800"

definition breakdyn_t :: "int \<times> int" where
  "breakdyn_t = (1200, 2400)"

definition fulldyn_time :: int where
  "fulldyn_time = 3600"

subsection \<open>Frames and frame timings (explore\_input, lines 143--153)\<close>

text \<open>
  One entry of the time-sorted series dictionary \<^verbatim>\<open>srs_t\<close>. Datetimes and timedeltas
  are integers counting microseconds: \<open>acq_datetime\<close> is the value of
  \<^verbatim>\<open>datetime.strptime(dstudy + tacq, '%Y%m%d%H%M%S')\<close>, \<open>frm_dur\<close> the timedelta
  \<^verbatim>\<open>frm_dur\<close>, \<open>radio_start_time\<close> the administration start, and \<open>tracer\<close> the
  optional key \<^verbatim>\<open>'tracer'\<close>.
\<close>

record frame =
  acq_datetime :: int
  frm_dur :: int
  radio_start_time :: int
  tracer :: "string option"

text \<open>The attribute \<^verbatim>\<open>.seconds\<close> of a Python timedelta: a timedelta is normalised to
  days, seconds in \<open>[0, 86400)\<close> and microseconds in \<open>[0, 10^6)\<close>, and \<^verbatim>\<open>.seconds\<close>
  reads the middle component only.\<close>

definition td_seconds :: "int \<Rightarrow> int" where
  "td_seconds d = (d div 1000000) mod 86400"

definition frame_timing :: "frame \<Rightarrow> int \<times> int" where
  "frame_timing v =
     (let t0 = acq_datetime v - radio_start_time v;
          t1 = acq_datetime v + frm_dur v - radio_start_time v
      in (td_seconds t0, td_seconds t1))"

definition frame_timings :: "(string \<times> frame) list \<Rightarrow> (int \<times> int) list" where
  "frame_timings srs_t = map (\<lambda>(k, v). frame_timing v) srs_t"

subsection \<open>Acquisition kind (explore\_input, lines 160--167)\<close>

datatype acq_kind = Static | Breakdyn | Fulldyn

text \<open>The arguments are \<^verbatim>\<open>t_frms[0][0]\<close> and \<^verbatim>\<open>t_frms[-1][-1]\<close>; \<open>None\<close> is
  \<^verbatim>\<open>acq_type = None\<close>.\<close>

definition classify :: "int \<Rightarrow> int \<Rightarrow> acq_kind option" where
  "classify t_start0 t_stop_last =
     (if t_start0 < 1 then
        (if t_stop_last > fst breakdyn_t \<and> t_stop_last \<le> snd breakdyn_t then Some Breakdyn
         else if t_stop_last \<ge> fulldyn_time then Some Fulldyn
         else None)
      else if t_start0 > 1 then Some Static
      else None)"

subsection \<open>Nearest-match frame selection (lines 208--212, 236--240, 252--256)\<close>

text \<open>\<^verbatim>\<open>min(xs, key=f)\<close>: the first element of \<open>xs\<close> whose key is minimal; ValueError on
  an empty sequence.\<close>

fun min_key_from :: "('a \<Rightarrow> 'b::linorder) \<Rightarrow> 'a \<Rightarrow> 'a list \<Rightarrow> 'a" where
  "min_key_from f best [] = best"
| "min_key_from f best (x # xs) = min_key_from f (if f x < f best then x else best) xs"

definition py_min_key :: "('a \<Rightarrow> 'b::linorder) \<Rightarrow> 'a list \<Rightarrow> error + 'a" where
  "py_min_key f xs = (case xs of [] \<Rightarrow> Inl ValueError | x # r \<Rightarrow> Inr (min_key_from f x r))"

text \<open>\<^verbatim>\<open>xs.index(x)\<close>: the first position holding \<open>x\<close>; ValueError when there is none.\<close>

fun py_index :: "'a list \<Rightarrow> 'a \<Rightarrow> error + nat" where
  "py_index [] x = Inl ValueError"
| "py_index (y # ys) x =
     (if y = x then Inr 0
      else (case py_index ys x of Inl e \<Rightarrow> Inl e | Inr i \<Rightarrow> Inr (Suc i)))"

text \<open>The pair of statements \<^verbatim>\<open>t = min(ts, key=lambda x: abs(x - w))\<close> and
  \<^verbatim>\<open>frm = ts.index(t)\<close>: the selected timestamp and its frame index.\<close>

definition nearest_frame :: "int list \<Rightarrow> int \<Rightarrow> error + (int \<times> nat)" where
  "nearest_frame ts w =
     (case py_min_key (\<lambda>x. \<bar>x - w\<bar>) ts of
        Inl e \<Rightarrow> Inl e
      | Inr t \<Rightarrow> (case py_index ts t of Inl e \<Rightarrow> Inl e | Inr i \<Rightarrow> Inr (t, i)))"

subsection \<open>Tracer inference (explore\_input, lines 173--192)\<close>

text \<open>\<^verbatim>\<open>str.lower()\<close> on ASCII letters, and the substring test \<^verbatim>\<open>n in s\<close>.\<close>

definition lower_char :: "char \<Rightarrow> char" where
  "lower_char c =
     (let n = (of_char c :: nat) in if 65 \<le> n \<and> n \<le> 90 then char_of (n + 32) else c)"

definition lower :: "string \<Rightarrow> string" where
  "lower s = map lower_char s"

fun starts_with :: "string \<Rightarrow> string \<Rightarrow> bool" where
  "starts_with [] s = True"
| "starts_with (c # n) [] = False"
| "starts_with (c # n) (d # s) = (c = d \<and> starts_with n s)"

fun contains :: "string \<Rightarrow> string \<Rightarrow> bool" where
  "contains n [] = (n = [])"
| "contains n (d # s) = (starts_with n (d # s) \<or> contains n s)"

text \<open>The double loop over \<^verbatim>\<open>tracer_names\<close>: every synonym found in the DICOM tracer
  string assigns its tracer, so the last match in dictionary order stays.\<close>

definition match_tracer :: "string \<Rightarrow> string option \<Rightarrow> string option" where
  "match_tracer tracer_dcm tr =
     fold (\<lambda>(t, ns) acc. fold (\<lambda>n acc'. if contains n tracer_dcm then Some t else acc') ns acc)
       tracer_names tr"

text \<open>The candidate loop over \<^verbatim>\<open>suvr_twindow\<close> for a static acquisition (lines 189--192).
  The integers are compared with the float products exactly, as Python does.\<close>

definition static_candidates :: "int \<Rightarrow> int \<Rightarrow> string list" where
  "static_candidates acq_dur t_start0 =
     map fst (filter (\<lambda>(t, (w0, w1, dur)).
        of_int acq_dur > int_times_float dur (fl (1 - margin)) \<and>
        of_int acq_dur < int_times_float dur (fl (1 + margin)) \<and>
        of_int t_start0 > int_times_float w0 (fl (1 - margin))) suvr_twindow)"

text \<open>The block under \<^verbatim>\<open>if tracer is None\<close>. The result is the variable \<^verbatim>\<open>tracer\<close>
  afterwards and the list \<^verbatim>\<open>tracer_\<close> (here \<open>tracer_cand\<close>), which is \<open>None\<close> while the name is unbound: the
  source assigns it only inside this block.\<close>

definition infer_tracer ::
  "(string \<times> frame) list \<Rightarrow> string option \<Rightarrow> acq_kind option \<Rightarrow> int \<Rightarrow> int
     \<Rightarrow> string option \<times> string list option" where
  "infer_tracer srs_t tr acq_type acq_dur t_start0 =
     (case tr of
        Some t \<Rightarrow> (Some t, None)
      | None \<Rightarrow>
          (let tr' = (case tracer (snd (hd srs_t)) of
                        None \<Rightarrow> None
                      | Some s \<Rightarrow> match_tracer (lower s) None);
               tracer_cand = (case tr' of Some t \<Rightarrow> [t] | None \<Rightarrow> [])
           in (tr', Some (if acq_type = Some Static
                          then tracer_cand @ static_candidates acq_dur t_start0
                          else tracer_cand))))"

subsection \<open>Acquisition descriptors (explore\_input, lines 199--264)\<close>

text \<open>One element of \<^verbatim>\<open>msrs_class\<close>. The list \<open>acq\<close> is \<^verbatim>\<open>[acq_type]\<close> or
  \<^verbatim>\<open>[acq_type, 'suvr']\<close>; the key \<^verbatim>\<open>timings\<close> is absent in the fallback entry.\<close>

datatype acq_tag = Kind acq_kind | Suvr

record descriptor =
  acq :: "acq_tag list"
  time :: "int \<times> int"
  timings :: "(int \<times> int) list option"
  idxs :: "nat \<times> nat"
  frms :: "string list"

text \<open>\<^verbatim>\<open>[s for i, s in enumerate(srs_t) if i in range(frm_0, frm_1 + 1)]\<close>.\<close>

definition frames_in_range :: "(string \<times> frame) list \<Rightarrow> nat \<Rightarrow> nat \<Rightarrow> string list" where
  "frames_in_range srs_t frm_0 frm_1 =
     map snd (filter (\<lambda>(i, s). frm_0 \<le> i \<and> i < frm_1 + 1) (enumerate 0 (map fst srs_t)))"

text \<open>The selection shared by the three kinds: nearest start to \<open>w0\<close>, nearest stop to
  \<open>w1\<close>, and the frames between the two indices.\<close>

definition select_frames ::
  "(string \<times> frame) list \<Rightarrow> acq_tag list \<Rightarrow> int \<Rightarrow> int \<Rightarrow> error + descriptor" where
  "select_frames srs_t tags w0 w1 =
     (let t_frms = frame_timings srs_t in
      case nearest_frame (map fst t_frms) w0 of
        Inl e \<Rightarrow> Inl e
      | Inr (t0, frm_0) \<Rightarrow>
          (case nearest_frame (map snd t_frms) w1 of
             Inl e \<Rightarrow> Inl e
           | Inr (t1, frm_1) \<Rightarrow>
               Inr \<lparr>acq = tags, time = (t0, t1), timings = Some t_frms,
                    idxs = (frm_0, frm_1), frms = frames_in_range srs_t frm_0 frm_1\<rparr>))"

text \<open>The coverage test of line 200 on a window \<open>(w0, w1)\<close>.\<close>

definition covers :: "int \<Rightarrow> int \<Rightarrow> int \<times> int \<Rightarrow> bool" where
  "covers t_start0 t_stop_last w =
     (of_int t_start0 > int_times_float (fst w) (fl (1 - margin)) \<and>
      of_int t_stop_last < int_times_float (snd w) (fl (1 + margin)))"

definition coverage_warning :: string where
  "coverage_warning = ''The acquisition does not cover the requested time frame!''"

text \<open>The result of one pass through the body of \<^verbatim>\<open>for m in msrs\<close>: the descriptor
  appended to \<^verbatim>\<open>msrs_class\<close> (if any), the variable \<^verbatim>\<open>tracer\<close> afterwards, and the
  warnings logged.\<close>

record series_result =
  descr :: "descriptor option"
  tracer_after :: "string option"
  warnings :: "string list"

text \<open>The static branch, lines 199--232. Line 200 subscripts \<^verbatim>\<open>suvr_win_def\<close> before
  line 203 tests it for \<^verbatim>\<open>None\<close>; subscripting \<^verbatim>\<open>None\<close> raises TypeError.\<close>

definition static_branch ::
  "(string \<times> frame) list \<Rightarrow> string list option \<Rightarrow> (int \<times> int) option
     \<Rightarrow> error + (descriptor \<times> string list)" where
  "static_branch srs_t tracer_cand suvr_win_def =
     (let t_frms = frame_timings srs_t in
      case suvr_win_def of
        None \<Rightarrow> Inl TypeError
      | Some wd \<Rightarrow>
          if covers (fst (hd t_frms)) (snd (last t_frms)) wd then
            (case (case suvr_win_def of
                     None \<Rightarrow>
                       (case tracer_cand of
                          None \<Rightarrow> Inl UnboundLocalError
                        | Some [] \<Rightarrow> Inl IndexError
                        | Some (t # ts) \<Rightarrow>
                            (case map_of suvr_twindow t of
                               None \<Rightarrow> Inl KeyError
                             | Some (w0, w1, dur) \<Rightarrow> Inr (w0, w1)))
                   | Some w \<Rightarrow> Inr w) of
               Inl e \<Rightarrow> Inl e
             | Inr suvr_win \<Rightarrow>
                 (case select_frames srs_t [Kind Static, Suvr] (fst suvr_win) (snd suvr_win) of
                    Inl e \<Rightarrow> Inl e
                  | Inr d \<Rightarrow> Inr (d, [])))
          else
            Inr (\<lparr>acq = [Kind Static],
                  time = (hd (map fst t_frms), last (map snd t_frms)),
                  timings = None,
                  idxs = (0, length t_frms - 1),
                  frms = map fst srs_t\<rparr>, [coverage_warning]))"

text \<open>The body of the loop \<^verbatim>\<open>for m in msrs\<close> from line 143 on, for one time-sorted
  series \<open>srs_t\<close>. An empty series raises IndexError at \<^verbatim>\<open>t_frms[-1][-1]\<close>.\<close>

definition explore_series ::
  "(string \<times> frame) list \<Rightarrow> string option \<Rightarrow> (int \<times> int) option \<Rightarrow> error + series_result" where
  "explore_series srs_t tr suvr_win_def =
     (let t_frms = frame_timings srs_t in
      if t_frms = [] then Inl IndexError
      else
        let t_start0 = fst (hd t_frms);
            t_stop_last = snd (last t_frms);
            acq_dur = t_stop_last - t_start0;
            acq_type = classify t_start0 t_stop_last;
            (tr', tracer_cand) = infer_tracer srs_t tr acq_type acq_dur t_start0
        in case acq_type of
             None \<Rightarrow> Inr \<lparr>descr = None, tracer_after = tr', warnings = []\<rparr>
           | Some Static \<Rightarrow>
               (case static_branch srs_t tracer_cand suvr_win_def of
                  Inl e \<Rightarrow> Inl e
                | Inr (d, ws) \<Rightarrow> Inr \<lparr>descr = Some d, tracer_after = tr', warnings = ws\<rparr>)
           | Some Breakdyn \<Rightarrow>
               (case select_frames srs_t [Kind Breakdyn] 0 break_time of
                  Inl e \<Rightarrow> Inl e
                | Inr d \<Rightarrow> Inr \<lparr>descr = Some d, tracer_after = tr', warnings = []\<rparr>)
           | Some Fulldyn \<Rightarrow>
               (case select_frames srs_t [Kind Fulldyn] 0 fulldyn_time of
                  Inl e \<Rightarrow> Inl e
                | Inr d \<Rightarrow> Inr \<lparr>descr = Some d, tracer_after = tr', warnings = []\<rparr>))"

text \<open>The loop itself: the variable \<^verbatim>\<open>tracer\<close> is carried from one series to the next,
  \<^verbatim>\<open>msrs_class\<close> and the log grow, and the first exception ends the call.\<close>

fun explore_loop ::
  "(string \<times> frame) list list \<Rightarrow> string option \<Rightarrow> (int \<times> int) option
     \<Rightarrow> descriptor list \<Rightarrow> string list \<Rightarrow> error + (descriptor list \<times> string list)" where
  "explore_loop [] tr wd msrs_class logged = Inr (msrs_class, logged)"
| "explore_loop (m # msrs) tr wd msrs_class logged =
     (case explore_series m tr wd of
        Inl e \<Rightarrow> Inl e
      | Inr r \<Rightarrow>
          explore_loop msrs (tracer_after r) wd
            (msrs_class @ (case descr r of None \<Rightarrow> [] | Some d \<Rightarrow> [d]))
            (logged @ warnings r))"

definition explore_input ::
  "(string \<times> frame) list list \<Rightarrow> string option \<Rightarrow> (int \<times> int) option
     \<Rightarrow> error + (descriptor list \<times> string list)" where
  "explore_input msrs_t tr suvr_win_def = explore_loop msrs_t tr suvr_win_def [] []"


subsection \<open>Static image builder (suvr\_tools.py, preproc\_suvr)\<close>

text \<open>A volume is the list of its voxel intensities in array order. Intensities and their
  sums are rationals: rounding and overflow of the source's floating point are not part of
  the model.\<close>

type_synonym volume = "rat list"

text \<open>Lines 51--98, the resolution of \<^verbatim>\<open>pet_path\<close> to \<^verbatim>\<open>fpet_nii\<close>. The file system is
  read through the fields of the record: whether the path exists, whether it is a NIfTI file,
  whether it is a folder holding a DICOM file, and the NIfTI files found in the output folder
  after the conversion. When the path is neither, \<^verbatim>\<open>fpet_nii\<close> stays unbound and line 101
  raises.\<close>

record pet_path_info =
  path_exists :: bool
  is_nifti_file :: bool
  is_dicom_dir :: bool
  pet_name :: string
  converted :: "string list"

definition resolve_pet :: "pet_path_info \<Rightarrow> error + string" where
  "resolve_pet p =
     (if \<not> path_exists p then Inl ValueError
      else if is_nifti_file p then Inr (pet_name p)
      else if is_dicom_dir p then
        (case converted p of
           [] \<Rightarrow> Inl ValueError
         | [f] \<Rightarrow> Inr f
         | f # g # fs \<Rightarrow> Inl ValueError)
      else Inl UnboundLocalError)"

text \<open>The dictionary returned by \<^verbatim>\<open>nimpa.getnii(fpet_nii, output='all')\<close>: the header
  field \<^verbatim>\<open>hdr['dim'][4]\<close> and the array \<^verbatim>\<open>im\<close>, as the list of its slices along axis 0.\<close>

record imdct =
  hdr_dim4 :: int
  im :: "volume list"

text \<open>\<^verbatim>\<open>np.arange(nfrm)\<close> and \<^verbatim>\<open>max(frames)\<close> on a non-empty list.\<close>

definition arange :: "int \<Rightarrow> int list" where
  "arange n = map int [0..<nat n]"

definition py_max :: "int list \<Rightarrow> int" where
  "py_max xs = fold max (tl xs) (hd xs)"

text \<open>Lines 106--110: the test of the requested frames against \<^verbatim>\<open>nfrm\<close>. A list is true
  when it is not empty.\<close>

definition check_frames :: "int \<Rightarrow> int list option \<Rightarrow> error + int list" where
  "check_frames nfrm frames =
     (case frames of
        None \<Rightarrow> Inr (arange nfrm)
      | Some fs \<Rightarrow>
          if fs \<noteq> [] \<and> nfrm < py_max fs then Inl ValueError
          else if fs = [] then Inr (arange nfrm)
          else Inr fs)"

text \<open>\<^verbatim>\<open>im[frames, ...]\<close>: indexing axis 0 with a list of integers. An index \<open>i\<close> is in
  range when \<open>-n \<le> i < n\<close> for the \<open>n\<close> slices of the array; a negative index counts
  from the end; any other index raises IndexError.\<close>

definition take_frames :: "volume list \<Rightarrow> int list \<Rightarrow> error + volume list" where
  "take_frames a frames =
     (let n = int (length a) in
      if \<forall>i \<in> set frames. - n \<le> i \<and> i < n
      then Inr (map (\<lambda>i. a ! nat (if i < 0 then i + n else i)) frames)
      else Inl IndexError)"

text \<open>\<^verbatim>\<open>np.sum(..., axis=0)\<close>: the voxel-wise sum of the selected slices, zero everywhere
  when none is selected.\<close>

definition sum_axis0 :: "nat \<Rightarrow> volume list \<Rightarrow> volume" where
  "sum_axis0 nvox vs = foldr (map2 (+)) vs (replicate nvox 0)"

definition vol_size :: "volume list \<Rightarrow> nat" where
  "vol_size a = (case a of [] \<Rightarrow> 0 | v # vs \<Rightarrow> length v)"

text \<open>\<^verbatim>\<open>np.squeeze(im)\<close> drops the axes of length one and keeps every voxel.\<close>

definition squeeze :: "volume list \<Rightarrow> volume" where
  "squeeze a = concat a"

text \<open>The result of the external \<^verbatim>\<open>nimpa.centre_mass_corr\<close>: the keys \<^verbatim>\<open>fim\<close> and
  \<^verbatim>\<open>com_abs\<close>.\<close>

record com_result =
  fim :: string
  com_abs :: "rat list"

record suvr_args =
  pet_path :: pet_path_info
  image :: imdct
  frames :: "int list option"
  fname :: string
  fstat_is_file :: bool
  com_correction :: bool
  force :: bool
  centre_mass_corr :: "volume \<Rightarrow> com_result"

record suvr_result =
  fpet_nii :: string
  fsuvr :: string
  fcom :: string
  com :: "rat list"

text \<open>Lines 119--135: the static image and the centre-of-mass correction. The result is the
  image written to \<^verbatim>\<open>fstat\<close> (if any) and the variable \<^verbatim>\<open>fsuvr_com\<close>, \<open>None\<close> while
  the name is unbound.\<close>

definition build_static ::
  "suvr_args \<Rightarrow> int \<Rightarrow> int list \<Rightarrow> error + (volume option \<times> com_result option)" where
  "build_static a nfrm frs =
     (if \<not> fstat_is_file a \<or> force a then
        (case (if nfrm > 1 then
                 (case take_frames (im (image a)) frs of
                    Inl e \<Rightarrow> Inl e
                  | Inr sel \<Rightarrow> Inr (sum_axis0 (vol_size (im (image a))) sel))
               else Inr (squeeze (im (image a)))) of
           Inl e \<Rightarrow> Inl e
         | Inr imstat \<Rightarrow>
             Inr (Some imstat,
                  if com_correction a then Some (centre_mass_corr a imstat) else None))
      else Inr (None, None))"

text \<open>\<^verbatim>\<open>preproc_suvr\<close>. The second component is the image written to \<^verbatim>\<open>fstat\<close> by the
  call, also when the call then raises.\<close>

definition preproc_suvr :: "suvr_args \<Rightarrow> (error + suvr_result) \<times> volume option" where
  "preproc_suvr a =
     (case resolve_pet (pet_path a) of
        Inl e \<Rightarrow> (Inl e, None)
      | Inr fpet \<Rightarrow>
          (let nfrm = hdr_dim4 (image a) in
           case check_frames nfrm (frames a) of
             Inl e \<Rightarrow> (Inl e, None)
           | Inr frs \<Rightarrow>
               (case build_static a nfrm frs of
                  Inl e \<Rightarrow> (Inl e, None)
                | Inr (written, fsuvr_com) \<Rightarrow>
                    (case fsuvr_com of
                       None \<Rightarrow> (Inl UnboundLocalError, written)
                     | Some c \<Rightarrow>
                         (Inr \<lparr>fpet_nii = fpet, fsuvr = fname a, fcom = fim c,
                               com = com_abs c\<rparr>, written)))))"

subsection \<open>VOI sampling (suvr\_tools.py, extract\_vois)\<close>

text \<open>A value of numpy's float64 as far as division needs it: a finite number, NaN or an
  infinity. Numpy's true division does not raise on a zero divisor; it gives NaN for
  \<open>0 / 0\<close> and an infinity otherwise. Zero has no sign here.\<close>

datatype npfloat = Fin rat | NaN | PInf | NInf

fun np_div :: "npfloat \<Rightarrow> npfloat \<Rightarrow> npfloat" where
  "np_div (Fin a) (Fin b) =
     (if b = 0 then (if a = 0 then NaN else if a > 0 then PInf else NInf) else Fin (a / b))"
| "np_div NaN y = NaN"
| "np_div x NaN = NaN"
| "np_div (Fin a) PInf = Fin 0"
| "np_div (Fin a) NInf = Fin 0"
| "np_div PInf (Fin b) = (if b \<ge> 0 then PInf else NInf)"
| "np_div NInf (Fin b) = (if b \<ge> 0 then NInf else PInf)"
| "np_div PInf y = NaN"
| "np_div NInf y = NaN"

text \<open>A numpy scalar or a one-dimensional array.\<close>

datatype 'a arr = Scalar 'a | Vec "'a list"

fun arr_map :: "('a \<Rightarrow> 'b) \<Rightarrow> 'a arr \<Rightarrow> 'b arr" where
  "arr_map f (Scalar x) = Scalar (f x)"
| "arr_map f (Vec xs) = Vec (map f xs)"

text \<open>The PET image as a numpy array: four-dimensional (the list of its frames),
  three-dimensional, or of another dimension. \<^verbatim>\<open>im.ndim\<close> is its number of dimensions;
  an array has no attribute \<^verbatim>\<open>ndims\<close>, so reading it raises AttributeError.\<close>

datatype pet_image = Im4 "volume list" | Im3 volume | ImOther nat volume

text \<open>\<open>ImOther d v\<close> numbers the dimensions other than 3 and 4 in order: 0, 1, 2, 5, 6
  and so on.\<close>

fun ndim :: "pet_image \<Rightarrow> nat" where
  "ndim (Im4 fs) = 4"
| "ndim (Im3 v) = 3"
| "ndim (ImOther d v) = (if d < 3 then d else d + 2)"

definition ndims :: "pet_image \<Rightarrow> error + nat" where
  "ndims i = Inl AttributeError"

text \<open>A voxel of the label image: a label, or NaN (\<open>None\<close>). Line 214 replaces NaN by
  zero.\<close>

type_synonym label = "int option"

definition denan :: "label list \<Rightarrow> int list" where
  "denan lbls = map (\<lambda>l. case l of None \<Rightarrow> 0 | Some v \<Rightarrow> v) lbls"

text \<open>Lines 238--246: the mask starts all false and every label of the VOI adds
  \<^verbatim>\<open>np.equal(lbls, ri)\<close>; on boolean arrays \<^verbatim>\<open>+=\<close> is the logical or.\<close>

definition roi_mask :: "int list \<Rightarrow> int list \<Rightarrow> bool list" where
  "roi_mask lbls ris =
     fold (\<lambda>ri rmsk. map2 (\<or>) rmsk (map (\<lambda>l. l = ri) lbls)) ris
       (replicate (length lbls) False)"

text \<open>The argument \<^verbatim>\<open>atlas_mask\<close>: an array, or something that is neither an array nor a
  file (ValueError); without the argument \<^verbatim>\<open>amsk\<close> is the number 1.\<close>

datatype mask_arg = MaskArray "rat list" | MaskInvalid

datatype amsk = One | Arr "rat list"

definition get_amsk :: "mask_arg option \<Rightarrow> error + amsk" where
  "get_amsk atlas_mask =
     (case atlas_mask of
        None \<Rightarrow> Inr One
      | Some (MaskArray m) \<Rightarrow> Inr (Arr m)
      | Some MaskInvalid \<Rightarrow> Inl ValueError)"

text \<open>Line 247, the expression statement \<^verbatim>\<open>rmsk * amsk\<close>: the product is computed and
  dropped, so all that is left of it is the ValueError of two shapes that do not broadcast
  (different lengths, none of them one).\<close>

definition mul_discarded :: "bool list \<Rightarrow> amsk \<Rightarrow> error + unit" where
  "mul_discarded rmsk a =
     (case a of
        One \<Rightarrow> Inr ()
      | Arr m \<Rightarrow>
          if length m = length rmsk \<or> length m = 1 \<or> length rmsk = 1 then Inr ()
          else Inl ValueError)"

text \<open>\<^verbatim>\<open>np.sum(v[rmsk])\<close>: the sum of the voxels under the mask; a mask of another shape
  than the volume raises IndexError.\<close>

definition masked_sum :: "volume \<Rightarrow> bool list \<Rightarrow> error + rat" where
  "masked_sum v rmsk =
     (if length v = length rmsk
      then Inr (sum_list (map fst (filter snd (zip v rmsk))))
      else Inl IndexError)"

fun masked_sums :: "volume list \<Rightarrow> bool list \<Rightarrow> error + rat list" where
  "masked_sums [] rmsk = Inr []"
| "masked_sums (v # vs) rmsk =
     (case masked_sum v rmsk of
        Inl e \<Rightarrow> Inl e
      | Inr s \<Rightarrow> (case masked_sums vs rmsk of Inl e \<Rightarrow> Inl e | Inr ss \<Rightarrow> Inr (s # ss)))"

record voi_result =
  vox_no :: nat
  sum :: "rat arr"
  avg :: "npfloat arr"
  fvoi :: "string option"
  roimsk :: "bool list option"

text \<open>The body of the loop over \<^verbatim>\<open>voi_dct\<close>, lines 238--275, for the labels \<open>ris\<close> of one
  VOI. The image and the atlas are given as arrays, so no mask file is written and
  \<^verbatim>\<open>fvoi\<close> is \<open>None\<close> (line 249). Under the test \<open>ndim img = 4\<close> the image is
  \<open>Im4\<close>, and under \<open>d = 3\<close> it would be \<open>Im3\<close>; the remaining cases of the two
  inner case distinctions do not occur.\<close>

definition voi_sample ::
  "pet_image \<Rightarrow> int list \<Rightarrow> amsk \<Rightarrow> int list \<Rightarrow> bool \<Rightarrow> error + voi_result" where
  "voi_sample img lbls a ris output_masks =
     (let rmsk = roi_mask lbls ris in
      case mul_discarded rmsk a of
        Inl e \<Rightarrow> Inl e
      | Inr u \<Rightarrow>
          (let vxsum = 0 + length (filter id rmsk) in
           case (if ndim img = 4 then
                   (case img of
                      Im4 fs \<Rightarrow>
                        (case masked_sums fs rmsk of
                           Inl e \<Rightarrow> Inl e
                         | Inr ss \<Rightarrow> Inr (Vec ss))
                    | Im3 v \<Rightarrow> Inl TypeError
                    | ImOther d v \<Rightarrow> Inl IndexError)
                 else
                   (case ndims img of
                      Inl e \<Rightarrow> Inl e
                    | Inr d \<Rightarrow>
                        if d = 3 then
                          (case img of
                             Im3 v \<Rightarrow>
                               (case masked_sum v rmsk of
                                  Inl e \<Rightarrow> Inl e
                                | Inr s \<Rightarrow> Inr (Scalar s))
                           | Im4 fs \<Rightarrow> Inl IndexError
                           | ImOther d' v \<Rightarrow> Inl IndexError)
                        else Inl ValueError)) of
             Inl e \<Rightarrow> Inl e
           | Inr emsum \<Rightarrow>
               Inr \<lparr>vox_no = vxsum, sum = emsum,
                    avg = arr_map (\<lambda>s. np_div (Fin s) (Fin (of_nat vxsum))) emsum,
                    fvoi = None,
                    roimsk = (if output_masks then Some rmsk else None)\<rparr>))"

fun voi_loop ::
  "pet_image \<Rightarrow> int list \<Rightarrow> amsk \<Rightarrow> bool \<Rightarrow> (string \<times> int list) list
     \<Rightarrow> error + (string \<times> voi_result) list" where
  "voi_loop img lbls a om [] = Inr []"
| "voi_loop img lbls a om ((voi, ris) # rest) =
     (case voi_sample img lbls a ris om of
        Inl e \<Rightarrow> Inl e
      | Inr r \<Rightarrow>
          (case voi_loop img lbls a om rest of
             Inl e \<Rightarrow> Inl e
           | Inr out \<Rightarrow> Inr ((voi, r) # out)))"

definition extract_vois ::
  "pet_image \<Rightarrow> label list \<Rightarrow> (string \<times> int list) list \<Rightarrow> mask_arg option \<Rightarrow> bool
     \<Rightarrow> error + (string \<times> voi_result) list" where
  "extract_vois impet atlas voi_dct atlas_mask output_masks =
     (case get_amsk atlas_mask of
        Inl e \<Rightarrow> Inl e
      | Inr a \<Rightarrow> voi_loop impet (denan atlas) a output_masks voi_dct)"

subsection \<open>Frame alignment (preproc.py, align\_suvr)\<close>

text \<open>One entry of \<^verbatim>\<open>suvr_tdata\<close>: the keys \<^verbatim>\<open>tacq\<close> and \<^verbatim>\<open>series\<close>.\<close>

record tdata =
  tacq :: string
  series :: string

text \<open>The external collaborators: \<^verbatim>\<open>nimpa.rem_chars\<close>; the names of the files which
  \<^verbatim>\<open>dcm2niix\<close> writes into the NIfTI folder for the frame with a given key; and
  \<^verbatim>\<open>nimpa.coreg_spm\<close> on a reference file, a floating file and their frame indices,
  giving the affine file and the motion \<^verbatim>\<open>rot_ss + trn_ss\<close> (a rational here).\<close>

record collab =
  rem_chars :: "string \<Rightarrow> string"
  dcm2niix :: "string \<Rightarrow> string list"
  coreg_spm :: "string \<Rightarrow> string \<Rightarrow> nat \<Rightarrow> nat \<Rightarrow> string \<times> rat"

text \<open>The folder \<^verbatim>\<open>NIfTI_SUVr\<close>: the files and the subfolders directly inside it, and
  counters of the purges and of the calls to the converter, the registration and the
  resampling.\<close>

record world =
  nii_files :: "string list"
  nii_dirs :: "string list"
  purges :: nat
  conv_calls :: nat
  reg_calls :: nat
  rsmpl_calls :: nat

record align_result =
  fpet :: string
  Metric :: "rat list list"
  faff :: "string option list list"
  outpath :: string

definition niidir :: string where
  "niidir = ''NIfTI_SUVr''"

definition rsmpl_opth :: string where
  "rsmpl_opth = ''SPM-aligned''"

text \<open>\<^verbatim>\<open>nimpa.create_dir(rsmpl_opth)\<close>: nothing happens when the folder is there.\<close>

definition create_dir :: "string \<Rightarrow> world \<Rightarrow> world" where
  "create_dir d w = w\<lparr>nii_dirs := List.insert d (nii_dirs w)\<rparr>"

text \<open>Lines 317--322: every file and every subfolder of the NIfTI folder is removed.\<close>

definition purge :: "world \<Rightarrow> world" where
  "purge w = w\<lparr>nii_files := [], nii_dirs := [], purges := purges w + 1\<rparr>"

text \<open>The pattern \<^verbatim>\<open>'{}*.nii*'.format(tacq)\<close> of line 339.\<close>

definition glob_nii :: "string \<Rightarrow> string \<Rightarrow> bool" where
  "glob_nii t name = (starts_with t name \<and> contains ''.nii'' (drop (length t) name))"

text \<open>Lines 329--343: the conversion loop over \<^verbatim>\<open>suvr_descr['frms']\<close>, with the list
  \<^verbatim>\<open>nii_frms\<close> as accumulator.\<close>

fun convert_loop ::
  "collab \<Rightarrow> (string \<times> tdata) list \<Rightarrow> string list \<Rightarrow> string list \<Rightarrow> world
     \<Rightarrow> (error + string list) \<times> world" where
  "convert_loop c td [] nii_frms w = (Inr nii_frms, w)"
| "convert_loop c td (k # ks) nii_frms w =
     (case map_of td k of
        None \<Rightarrow> (Inl KeyError, w)
      | Some v \<Rightarrow>
          (let w1 = w\<lparr>nii_files := List.union (nii_files w) (dcm2niix c k),
                      conv_calls := conv_calls w + 1\<rparr>;
               fnii = filter (glob_nii (tacq v)) (nii_files w1)
           in if length fnii \<noteq> 1 then (Inl ValueError, w1)
              else convert_loop c td ks (nii_frms @ [hd fnii]) w1))"

text \<open>\<^verbatim>\<open>itertools.combinations(xs, 2)\<close>.\<close>

fun combinations2 :: "'a list \<Rightarrow> ('a \<times> 'a) list" where
  "combinations2 [] = []"
| "combinations2 (x # xs) = map (Pair x) xs @ combinations2 xs"

definition set2 :: "'a list list \<Rightarrow> nat \<Rightarrow> nat \<Rightarrow> 'a \<Rightarrow> 'a list list" where
  "set2 m i j v = m[i := (m ! i)[j := v]]"

text \<open>Lines 357--404: the registration loop; each pair is registered both ways.\<close>

fun register_loop ::
  "collab \<Rightarrow> string list \<Rightarrow> string list \<Rightarrow> (string \<times> string) list
     \<Rightarrow> rat list list \<Rightarrow> string option list list \<Rightarrow> world
     \<Rightarrow> (error + rat list list \<times> string option list list) \<times> world" where
  "register_loop c sel_frms nii_frms [] R S w = (Inr (R, S), w)"
| "register_loop c sel_frms nii_frms ((a, b) # cs) R S w =
     (case py_index sel_frms a of
        Inl e \<Rightarrow> (Inl e, w)
      | Inr frm0 \<Rightarrow>
          (case py_index sel_frms b of
             Inl e \<Rightarrow> (Inl e, w)
           | Inr frm1 \<Rightarrow>
               (let fnii0 = nii_frms ! frm0;
                    fnii1 = nii_frms ! frm1;
                    (faff01, r01) = coreg_spm c fnii0 fnii1 frm0 frm1;
                    S1 = set2 S frm0 frm1 (Some faff01);
                    R1 = set2 R frm0 frm1 r01;
                    (faff10, r10) = coreg_spm c fnii1 fnii0 frm1 frm0;
                    S2 = set2 S1 frm1 frm0 (Some faff10);
                    R2 = set2 R1 frm1 frm0 r10
                in register_loop c sel_frms nii_frms cs R2 S2 (w\<lparr>reg_calls := reg_calls w + 2\<rparr>))))"

text \<open>Lines 408--414: column sums, row sums and \<^verbatim>\<open>np.argmin\<close>, which returns the first
  position of the minimum and raises ValueError on an empty array.\<close>

definition fsum :: "rat list list \<Rightarrow> rat list" where
  "fsum R = map (\<lambda>j. sum_list (map (\<lambda>row. row ! j) R)) [0..<length R]"

definition rsum :: "rat list list \<Rightarrow> rat list" where
  "rsum R = map sum_list R"

definition argmin :: "rat list \<Rightarrow> error + nat" where
  "argmin xs =
     (case py_min_key (\<lambda>x. x) xs of Inl e \<Rightarrow> Inl e | Inr m \<Rightarrow> py_index xs m)"

text \<open>Lines 314--453, the branch that computes the aligned file.\<close>

definition realign ::
  "collab \<Rightarrow> (string \<times> tdata) list \<Rightarrow> string list \<Rightarrow> string \<Rightarrow> world
     \<Rightarrow> (error + rat list list \<times> string option list list) \<times> world" where
  "realign c td sel_frms faligned w =
     (case convert_loop c td sel_frms [] (purge w) of
        (Inl e, w1) \<Rightarrow> (Inl e, w1)
      | (Inr nii_frms, w1) \<Rightarrow>
          (let n = length nii_frms in
           case register_loop c sel_frms nii_frms (combinations2 sel_frms)
                  (replicate n (replicate n 0)) (replicate n (replicate n None)) w1 of
             (Inl e, w2) \<Rightarrow> (Inl e, w2)
           | (Inr (R, S), w2) \<Rightarrow>
               (case argmin (map2 (+) (fsum R) (rsum R)) of
                  Inl e \<Rightarrow> (Inl e, w2)
                | Inr rfrm \<Rightarrow>
                    (Inr (R, S),
                     w2\<lparr>rsmpl_calls :=
                           rsmpl_calls w2 + length (filter (\<lambda>ifrm. ifrm \<noteq> rfrm) [0..<n]),
                         nii_files := List.insert faligned (nii_files w2)\<rparr>))))"

text \<open>\<^verbatim>\<open>align_suvr\<close>. Without \<^verbatim>\<open>outpath\<close> an empty \<^verbatim>\<open>suvr_tdata\<close> raises at line 296,
  before the folders are made, and otherwise at line 310. The names \<^verbatim>\<open>R\<close> and \<^verbatim>\<open>S\<close>
  are assigned only inside the branch of line 314, and line 456 reads both.\<close>

definition align_suvr ::
  "collab \<Rightarrow> (string \<times> tdata) list \<Rightarrow> string list \<Rightarrow> string option \<Rightarrow> bool \<Rightarrow> world
     \<Rightarrow> (error + align_result) \<times> world" where
  "align_suvr c suvr_tdata sel_frms outp reg_force w =
     (case suvr_tdata of
        [] \<Rightarrow> (Inl StopIteration, if outp = None then w else create_dir rsmpl_opth w)
      | (k0, v0) # rest \<Rightarrow>
          (let w0 = create_dir rsmpl_opth w;
               faligned = ''SUVr_aligned_'' @ rem_chars c (series v0) @ ''.nii.gz''
           in if reg_force \<or> faligned \<notin> set (nii_files w0) then
                (case realign c suvr_tdata sel_frms faligned w0 of
                   (Inl e, w1) \<Rightarrow> (Inl e, w1)
                 | (Inr (R, S), w1) \<Rightarrow>
                     (Inr \<lparr>fpet = faligned, Metric = R, faff = S, outpath = niidir\<rparr>, w1))
              else (Inl UnboundLocalError, w0)))"

section \<open>Verified properties\<close>

subsection \<open>Nearest-match selection\<close>

lemma min_key_from_split:
  "\<exists>ys zs. b # xs = ys @ min_key_from f b xs # zs \<and>
     (\<forall>y\<in>set ys. f (min_key_from f b xs) < f y) \<and>
     (\<forall>z\<in>set zs. f (min_key_from f b xs) \<le> f z)"
proof (induction xs arbitrary: b)
  case Nil
  show ?case by (rule exI[of _ "[]"]) simp
next
  case (Cons x xs)
  show ?case
  proof (cases "f x < f b")
    case True
    define m where "m = min_key_from f x xs"
    from Cons.IH[of x] obtain ys zs where
      s: "x # xs = ys @ m # zs"
      and l: "\<forall>y\<in>set ys. f m < f y"
      and r: "\<forall>z\<in>set zs. f m \<le> f z" unfolding m_def by blast
    have "x \<in> set (ys @ m # zs)" using s by (metis list.set_intros(1))
    then have "f m \<le> f x" using l r by auto
    then have mb: "f m < f b" using True by simp
    have res: "min_key_from f b (x # xs) = m" using True by (simp add: m_def)
    have "b # x # xs = (b # ys) @ m # zs" using s by simp
    moreover have "\<forall>y\<in>set (b # ys). f m < f y" using l mb by simp
    ultimately show ?thesis unfolding res using r by blast
  next
    case False
    define m where "m = min_key_from f b xs"
    from Cons.IH[of b] obtain ys zs where
      s: "b # xs = ys @ m # zs"
      and l: "\<forall>y\<in>set ys. f m < f y"
      and r: "\<forall>z\<in>set zs. f m \<le> f z" unfolding m_def by blast
    have res: "min_key_from f b (x # xs) = m" using False by (simp add: m_def)
    show ?thesis
    proof (cases ys)
      case Nil
      then have mb: "m = b" and zs: "zs = xs" using s by auto
      have "b # x # xs = [] @ m # (x # xs)" using mb by simp
      moreover have "\<forall>z\<in>set (x # xs). f m \<le> f z" using r zs mb False by auto
      moreover have "\<forall>y\<in>set ([]::'a list). f m < f y" by simp
      ultimately show ?thesis unfolding res by blast
    next
      case (Cons y ys')
      then have yb: "y = b" and xs: "xs = ys' @ m # zs" using s by auto
      have "f m < f b" using l Cons yb by simp
      then have mx: "f m < f x" using False by simp
      have "b # x # xs = (b # x # ys') @ m # zs" using xs by simp
      moreover have "\<forall>y\<in>set (b # x # ys'). f m < f y" using l Cons yb mx by auto
      ultimately show ?thesis unfolding res using r by blast
    qed
  qed
qed

lemma py_index_split:
  "x \<notin> set ys \<Longrightarrow> py_index (ys @ x # zs) x = Inr (length ys)"
  by (induction ys) auto

lemma nearest_frame_split:
  assumes "ts \<noteq> []"
  shows "\<exists>ys t zs. ts = ys @ t # zs \<and> nearest_frame ts w = Inr (t, length ys) \<and>
     (\<forall>y\<in>set ys. \<bar>t - w\<bar> < \<bar>y - w\<bar>) \<and> (\<forall>z\<in>set zs. \<bar>t - w\<bar> \<le> \<bar>z - w\<bar>)"
proof -
  obtain b xs where ts: "ts = b # xs" using assms by (cases ts) auto
  define f where "f = (\<lambda>x::int. \<bar>x - w\<bar>)"
  define t where "t = min_key_from f b xs"
  obtain ys zs where s: "b # xs = ys @ t # zs"
      and l: "\<forall>y\<in>set ys. f t < f y"
      and r: "\<forall>z\<in>set zs. f t \<le> f z"
    using min_key_from_split[of b xs f] unfolding t_def by blast
  have "t \<notin> set ys" using l by auto
  then have "py_index (ys @ t # zs) t = Inr (length ys)" by (rule py_index_split)
  then have i: "py_index ts t = Inr (length ys)" using s ts by simp
  have m: "py_min_key (\<lambda>x. \<bar>x - w\<bar>) ts = Inr t"
    unfolding ts t_def f_def by (simp add: py_min_key_def)
  have "nearest_frame ts w = Inr (t, length ys)"
    unfolding nearest_frame_def m using i by simp
  then show ?thesis using s ts l r unfolding f_def by blast
qed

text \<open>
  Claim C7. For every non-empty list of frame timestamps (sorted or not) and every target
  \<open>w\<close>, the nearest-match selection returns a timestamp \<open>t\<close> and its index \<open>i\<close> such that
  \<open>t\<close> minimises the absolute difference to \<open>w\<close> over the whole list and every earlier
  position is strictly farther from \<open>w\<close>: ties go to the first index reaching the minimum.
  For the timestamps 0, 600, 1200, 1800 and the target 650 the selected index is 1.
\<close>

theorem nearest_frame_first_minimum:
  "(ts \<noteq> [] \<longrightarrow>
      (\<exists>t i. nearest_frame ts w = Inr (t, i) \<and> i < length ts \<and> ts ! i = t \<and>
         (\<forall>j<length ts. \<bar>t - w\<bar> \<le> \<bar>ts ! j - w\<bar>) \<and>
         (\<forall>j<i. \<bar>t - w\<bar> < \<bar>ts ! j - w\<bar>))) \<and>
   nearest_frame [0, 600, 1200, 1800] 650 = Inr (600, 1)"
proof (intro conjI impI)
  assume ne: "ts \<noteq> []"
  obtain ys t zs where s: "ts = ys @ t # zs" and n: "nearest_frame ts w = Inr (t, length ys)"
    and l: "\<forall>y\<in>set ys. \<bar>t - w\<bar> < \<bar>y - w\<bar>" and r: "\<forall>z\<in>set zs. \<bar>t - w\<bar> \<le> \<bar>z - w\<bar>"
    using nearest_frame_split[OF ne, of w] by blast
  have a: "length ys < length ts" using s by simp
  have b: "ts ! length ys = t" using s by simp
  have c: "\<forall>j<length ts. \<bar>t - w\<bar> \<le> \<bar>ts ! j - w\<bar>"
  proof (intro allI impI)
    fix j assume "j < length ts"
    then have "ts ! j \<in> set ts" by simp
    then have "ts ! j \<in> set ys \<or> ts ! j = t \<or> ts ! j \<in> set zs" using s by auto
    then show "\<bar>t - w\<bar> \<le> \<bar>ts ! j - w\<bar>" using l r by fastforce
  qed
  have d: "\<forall>j<length ys. \<bar>t - w\<bar> < \<bar>ts ! j - w\<bar>"
  proof (intro allI impI)
    fix j assume j: "j < length ys"
    then have "ts ! j = ys ! j" using s by (simp add: nth_append)
    then show "\<bar>t - w\<bar> < \<bar>ts ! j - w\<bar>" using l j by simp
  qed
  show "\<exists>t i. nearest_frame ts w = Inr (t, i) \<and> i < length ts \<and> ts ! i = t \<and>
         (\<forall>j<length ts. \<bar>t - w\<bar> \<le> \<bar>ts ! j - w\<bar>) \<and>
         (\<forall>j<i. \<bar>t - w\<bar> < \<bar>ts ! j - w\<bar>)"
    using n a b c d by blast
next
  show "nearest_frame [0, 600, 1200, 1800] 650 = Inr (600, 1)"
    by (simp add: nearest_frame_def py_min_key_def)
qed

theorem nearest_frame_first_minimum_witness:
  "[600, 0, 700, 1800] \<noteq> ([]::int list) \<and>
   (\<exists>t i. nearest_frame [600, 0, 700, 1800] 650 = Inr (t, i) \<and>
      i < length [600, 0, 700, 1800 :: int] \<and> [600, 0, 700, 1800] ! i = t \<and>
      (\<forall>j<length [600, 0, 700, 1800 :: int]. \<bar>t - 650\<bar> \<le> \<bar>[600, 0, 700, 1800] ! j - 650\<bar>) \<and>
      (\<forall>j<i. \<bar>t - 650\<bar> < \<bar>[600, 0, 700, 1800] ! j - 650\<bar>)) \<and>
   nearest_frame [600, 0, 700, 1800] 650 = Inr (600, 0)"
proof -
  have ne: "[600, 0, 700, 1800] \<noteq> ([]::int list)" by simp
  have ex: "\<exists>t i. nearest_frame [600, 0, 700, 1800] 650 = Inr (t, i) \<and>
      i < length [600, 0, 700, 1800 :: int] \<and> [600, 0, 700, 1800] ! i = t \<and>
      (\<forall>j<length [600, 0, 700, 1800 :: int]. \<bar>t - 650\<bar> \<le> \<bar>[600, 0, 700, 1800] ! j - 650\<bar>) \<and>
      (\<forall>j<i. \<bar>t - 650\<bar> < \<bar>[600, 0, 700, 1800] ! j - 650\<bar>)"
    using nearest_frame_first_minimum[of "[600, 0, 700, 1800]" 650] ne by blast
  have v: "nearest_frame [600, 0, 700, 1800] 650 = Inr (600, 0)"
    by (simp add: nearest_frame_def py_min_key_def)
  show ?thesis using ne ex v by blast
qed

subsection \<open>Acquisition kind\<close>

lemma explore_series_undetermined:
  assumes "frame_timings srs_t \<noteq> []"
    and "classify (fst (hd (frame_timings srs_t))) (snd (last (frame_timings srs_t))) = None"
  shows "\<exists>tr'. explore_series srs_t tr wd =
           Inr \<lparr>descr = None, tracer_after = tr', warnings = []\<rparr>"
  using assms by (simp add: explore_series_def Let_def split: prod.splits)

lemma explore_series_kind:
  assumes "explore_series srs_t tr wd = Inr r" and "descr r = Some d"
  shows "\<exists>k. classify (fst (hd (frame_timings srs_t))) (snd (last (frame_timings srs_t))) = Some k
           \<and> hd (acq d) = Kind k"
  using assms
  by (auto simp: explore_series_def static_branch_def select_frames_def Let_def
      split: prod.splits if_splits option.splits acq_kind.splits sum.splits)

text \<open>
  Claim C6, as stated, fails in its last part: a series whose first frame starts exactly 1 s
  after the administration start (timings (1, 3600)) has an undetermined kind, and
  \<^verbatim>\<open>explore_input\<close> returns normally, with no descriptor for the series and no error.
\<close>

theorem undetermined_kind_not_rejected:
  "explore_input
     [[(''s1'', \<lparr>acq_datetime = 1000000, frm_dur = 3599000000, radio_start_time = 0,
                tracer = None\<rparr>)]] None (Some (3000, 3600)) = Inr ([], []) \<and>
   frame_timings
     [(''s1'', \<lparr>acq_datetime = 1000000, frm_dur = 3599000000, radio_start_time = 0,
               tracer = None\<rparr>)] = [(1, 3600)] \<and>
   classify 1 3600 = None"
  by (simp add: explore_input_def explore_series_def frame_timings_def frame_timing_def
      td_seconds_def classify_def breakdyn_t_def fulldyn_time_def infer_tracer_def)

text \<open>
  Claim C6, amended. The acquisition kind follows the threshold rule exactly: coffee-break
  dynamic when the first start is below 1 s and the last stop lies in (1200 s, 2400 s]; full
  dynamic when the first start is below 1 s and the last stop is at least 3600 s; static when
  the first start is above 1 s; and undetermined in every remaining case, which is a first
  start of exactly 1 s, or a first start below 1 s with the last stop at most 1200 s or
  strictly between 2400 s and 3600 s. For a series of undetermined kind the classifier
  appends no descriptor, logs no warning and raises no error: the series is dropped from the
  result. Every descriptor that is appended carries the kind which the rule gives for the
  first start and the last stop of its series.
\<close>

theorem classify_threshold_rule:
  "(classify t_start0 t_stop_last = Some Breakdyn \<longleftrightarrow>
      t_start0 < 1 \<and> 1200 < t_stop_last \<and> t_stop_last \<le> 2400) \<and>
   (classify t_start0 t_stop_last = Some Fulldyn \<longleftrightarrow>
      t_start0 < 1 \<and> 3600 \<le> t_stop_last) \<and>
   (classify t_start0 t_stop_last = Some Static \<longleftrightarrow> 1 < t_start0) \<and>
   (classify t_start0 t_stop_last = None \<longleftrightarrow>
      t_start0 = 1 \<or>
      (t_start0 < 1 \<and> (t_stop_last \<le> 1200 \<or> (2400 < t_stop_last \<and> t_stop_last < 3600)))) \<and>
   (frame_timings srs_t \<noteq> [] \<longrightarrow>
    classify (fst (hd (frame_timings srs_t))) (snd (last (frame_timings srs_t))) = None \<longrightarrow>
      (\<exists>tr'. explore_series srs_t tr wd =
                Inr \<lparr>descr = None, tracer_after = tr', warnings = []\<rparr>) \<and>
      explore_input [srs_t] tr wd = Inr ([], [])) \<and>
   (\<forall>r d. explore_series srs_t tr wd = Inr r \<longrightarrow> descr r = Some d \<longrightarrow>
      (\<exists>k. classify (fst (hd (frame_timings srs_t))) (snd (last (frame_timings srs_t))) = Some k
           \<and> hd (acq d) = Kind k))"
proof -
  have 1: "(classify t_start0 t_stop_last = Some Breakdyn \<longleftrightarrow>
      t_start0 < 1 \<and> 1200 < t_stop_last \<and> t_stop_last \<le> 2400) \<and>
   (classify t_start0 t_stop_last = Some Fulldyn \<longleftrightarrow>
      t_start0 < 1 \<and> 3600 \<le> t_stop_last) \<and>
   (classify t_start0 t_stop_last = Some Static \<longleftrightarrow> 1 < t_start0) \<and>
   (classify t_start0 t_stop_last = None \<longleftrightarrow>
      t_start0 = 1 \<or>
      (t_start0 < 1 \<and> (t_stop_last \<le> 1200 \<or> (2400 < t_stop_last \<and> t_stop_last < 3600))))"
    by (auto simp: classify_def breakdyn_t_def fulldyn_time_def)
  have 2: "(\<exists>tr'. explore_series srs_t tr wd =
                Inr \<lparr>descr = None, tracer_after = tr', warnings = []\<rparr>) \<and>
      explore_input [srs_t] tr wd = Inr ([], [])"
    if a: "frame_timings srs_t \<noteq> []"
      and b: "classify (fst (hd (frame_timings srs_t))) (snd (last (frame_timings srs_t))) = None"
  proof -
    from explore_series_undetermined[OF a b, of tr wd] obtain tr' where
      e: "explore_series srs_t tr wd = Inr \<lparr>descr = None, tracer_after = tr', warnings = []\<rparr>"
      by blast
    then have "explore_input [srs_t] tr wd = Inr ([], [])" by (simp add: explore_input_def)
    then show ?thesis using e by blast
  qed
  have 3: "\<forall>r d. explore_series srs_t tr wd = Inr r \<longrightarrow> descr r = Some d \<longrightarrow>
      (\<exists>k. classify (fst (hd (frame_timings srs_t))) (snd (last (frame_timings srs_t))) = Some k
           \<and> hd (acq d) = Kind k)"
    using explore_series_kind by blast
  show ?thesis
  proof (intro conjI)
    show "frame_timings srs_t \<noteq> [] \<longrightarrow>
      classify (fst (hd (frame_timings srs_t))) (snd (last (frame_timings srs_t))) = None \<longrightarrow>
      (\<exists>tr'. explore_series srs_t tr wd =
                Inr \<lparr>descr = None, tracer_after = tr', warnings = []\<rparr>) \<and>
      explore_input [srs_t] tr wd = Inr ([], [])"
      using 2 by blast
  qed (use 1 3 in simp_all)
qed

theorem classify_threshold_rule_witness:
  "classify 0 1800 = Some Breakdyn \<and> classify 0 3600 = Some Fulldyn \<and>
   classify 3000 3600 = Some Static \<and> classify 1 3600 = None \<and> classify 0 3000 = None \<and>
   explore_input
     [[(''s1'', \<lparr>acq_datetime = 0, frm_dur = 3000000000, radio_start_time = 0,
                tracer = None\<rparr>)]] None None = Inr ([], [])"
proof -
  let ?s = "[(''s1'', \<lparr>acq_datetime = 0, frm_dur = 3000000000, radio_start_time = 0,
                tracer = None\<rparr>)]"
  have t: "frame_timings ?s = [(0, 3000)]"
    by (simp add: frame_timings_def frame_timing_def td_seconds_def)
  have n: "classify 0 3000 = None"
    using classify_threshold_rule[of 0 3000] by simp
  have "explore_input [?s] None None = Inr ([], [])"
    using classify_threshold_rule[of 0 3000 ?s None None] t n by simp
  then show ?thesis
    using classify_threshold_rule[of 0 1800] classify_threshold_rule[of 0 3600]
      classify_threshold_rule[of 3000 3600] classify_threshold_rule[of 1 3600] n
    by simp
qed

subsection \<open>Static acquisitions and the SUVr window\<close>

text \<open>The float values of the coverage test for the window (3000, 3600): the margin and
  the two factors are the binary64 numbers nearest to 0.1, 0.9 and 1.1, the lower bound is
  exactly 2700 and the upper bound is the float next above 3960.\<close>

lemma bitlen_nat_bounds:
  "2 ^ k \<le> n \<Longrightarrow> n < 2 ^ Suc k \<Longrightarrow> bitlen_nat n = Suc k"
proof (induction k arbitrary: n)
  case 0
  then have "n = 1" by simp
  then show ?case by (simp add: bitlen_nat.simps)
next
  case (Suc k)
  have "2 ^ k \<le> n div 2" using Suc.prems(1) by simp
  moreover have "n div 2 < 2 ^ Suc k" using Suc.prems(2) by simp
  ultimately have "bitlen_nat (n div 2) = Suc k" by (rule Suc.IH)
  moreover have "n \<noteq> 0"
  proof
    assume "n = 0"
    then have "(2::nat) ^ Suc k \<le> 0" using Suc.prems(1) by simp
    then show False by simp
  qed
  ultimately show ?case by (subst bitlen_nat.simps) simp
qed

lemma floor_log2_ge1:
  assumes "2 ^ k \<le> x" and "x < 2 ^ Suc k"
  shows "floor_log2 x = int k"
proof -
  have x1: "1 \<le> x" using assms(1) by (meson one_le_numeral one_le_power order_trans)
  have "(2::int) ^ k \<le> \<lfloor>x\<rfloor>" using assms(1) by (simp add: le_floor_iff)
  then have a: "2 ^ k \<le> nat \<lfloor>x\<rfloor>" by (simp add: le_nat_iff)
  have "\<lfloor>x\<rfloor> < 2 ^ Suc k" using assms(2) by (simp add: floor_less_iff)
  moreover have "0 \<le> \<lfloor>x\<rfloor>" using x1 by simp
  ultimately have b: "nat \<lfloor>x\<rfloor> < 2 ^ Suc k" by (simp add: nat_less_iff)
  show ?thesis using bitlen_nat_bounds[OF a b] x1 by (simp add: floor_log2_def)
qed

lemma floor_log2_lt1:
  assumes "1 / 2 ^ Suc i \<le> x" and "x < 1 / 2 ^ i"
  shows "floor_log2 x = - int (Suc i)"
proof -
  have p: "(0::rat) < 1 / 2 ^ Suc i" by simp
  have x0: "0 < x" using p assms(1) by (rule less_le_trans)
  have "(1::rat) / 2 ^ i \<le> 1" by (simp add: divide_le_eq)
  then have xl: "x < 1" using assms(2) by (rule order_less_le_trans[rotated])
  have u: "1 / x \<le> 2 ^ Suc i" using assms(1) x0 by (simp add: field_simps)
  have l: "2 ^ i < 1 / x" using assms(2) x0 by (simp add: field_simps)
  have "\<lceil>1 / x\<rceil> \<le> 2 ^ Suc i" using u by (simp add: ceiling_le_iff)
  then have b': "\<lceil>1 / x\<rceil> - 1 < 2 ^ Suc i" by simp
  have "(2::int) ^ i < \<lceil>1 / x\<rceil>" using l by (simp add: less_ceiling_iff)
  then have a': "2 ^ i \<le> \<lceil>1 / x\<rceil> - 1" by simp
  have a: "2 ^ i \<le> nat (\<lceil>1 / x\<rceil> - 1)" using a' by (simp add: le_nat_iff)
  have "(0::int) \<le> 2 ^ i" by simp
  then have nn: "0 \<le> \<lceil>1 / x\<rceil> - 1" using a' by (rule order_trans)
  have b: "nat (\<lceil>1 / x\<rceil> - 1) < 2 ^ Suc i" using b' nn by (simp add: nat_less_iff)
  show ?thesis using bitlen_nat_bounds[OF a b] xl by (simp add: floor_log2_def)
qed

lemma round_half_even_near:
  assumes "\<bar>x - of_int m\<bar> < 1 / 2"
  shows "round_half_even x = m"
proof (cases "of_int m \<le> x")
  case True
  then have "\<lfloor>x\<rfloor> = m" using assms by (simp add: floor_unique)
  then show ?thesis using assms True by (simp add: round_half_even_def)
next
  case False
  then have f: "\<lfloor>x\<rfloor> = m - 1" using assms by (intro floor_unique) auto
  have "1 / 2 < x - of_int (m - 1)" using assms False by simp
  then show ?thesis using f by (simp add: round_half_even_def)
qed

lemma fl_eqI:
  assumes "0 < x" and "floor_log2 x = k" and "\<bar>x / pow2 (k - 52) - of_int m\<bar> < 1 / 2"
  shows "fl x = of_int m * pow2 (k - 52)"
  using assms by (simp add: fl_def Let_def round_half_even_near)

lemma margin_value: "margin = 3602879701896397 / 36028797018963968"
proof -
  have "floor_log2 (1 / 10) = - int (Suc 3)" by (rule floor_log2_lt1) simp_all
  then have k: "floor_log2 (1 / 10) = - 4" by simp
  have "fl (1 / 10) = of_int 7205759403792794 * pow2 (- 4 - 52)"
    by (rule fl_eqI[OF _ k]) (simp_all add: pow2_def)
  then show ?thesis by (simp add: margin_def pow2_def)
qed

lemma one_minus_margin: "fl (1 - margin) = 8106479329266893 / 9007199254740992"
proof -
  have "floor_log2 (1 - margin) = - int (Suc 0)"
    by (rule floor_log2_lt1) (simp_all add: margin_value)
  then have k: "floor_log2 (1 - margin) = - 1" by simp
  have "fl (1 - margin) = of_int 8106479329266893 * pow2 (- 1 - 52)"
    by (rule fl_eqI[OF _ k]) (simp_all add: pow2_def margin_value)
  then show ?thesis by (simp add: pow2_def)
qed

lemma one_plus_margin: "fl (1 + margin) = 2476979795053773 / 2251799813685248"
proof -
  have k: "floor_log2 (1 + margin) = int 0"
    by (rule floor_log2_ge1) (simp_all add: margin_value)
  have "fl (1 + margin) = of_int 4953959590107546 * pow2 (int 0 - 52)"
    by (rule fl_eqI[OF _ k]) (simp_all add: pow2_def margin_value)
  then show ?thesis by (simp add: pow2_def)
qed

lemma fl_3000: "fl 3000 = 3000"
proof -
  have k: "floor_log2 3000 = int 11" by (rule floor_log2_ge1) simp_all
  have "fl 3000 = of_int (3000 * 2 ^ 41) * pow2 (int 11 - 52)"
    by (rule fl_eqI[OF _ k]) (simp_all add: pow2_def)
  then show ?thesis by (simp add: pow2_def)
qed

lemma fl_3600: "fl 3600 = 3600"
proof -
  have k: "floor_log2 3600 = int 11" by (rule floor_log2_ge1) simp_all
  have "fl 3600 = of_int (3600 * 2 ^ 41) * pow2 (int 11 - 52)"
    by (rule fl_eqI[OF _ k]) (simp_all add: pow2_def)
  then show ?thesis by (simp add: pow2_def)
qed

lemma lower_bound_3000: "int_times_float 3000 (fl (1 - margin)) = 2700"
proof -
  let ?x = "3000 * (8106479329266893 / 9007199254740992) :: rat"
  have k: "floor_log2 ?x = int 11" by (rule floor_log2_ge1) simp_all
  have "fl ?x = of_int (2700 * 2 ^ 41) * pow2 (int 11 - 52)"
    by (rule fl_eqI[OF _ k]) (simp_all add: pow2_def)
  then have "fl ?x = 2700" by (simp add: pow2_def)
  then show ?thesis by (simp add: int_times_float_def fl_3000 one_minus_margin)
qed

lemma upper_bound_3600:
  "int_times_float 3600 (fl (1 + margin)) = 8708132091985921 / 2199023255552"
proof -
  let ?x = "3600 * (2476979795053773 / 2251799813685248) :: rat"
  have k: "floor_log2 ?x = int 11" by (rule floor_log2_ge1) simp_all
  have "fl ?x = of_int 8708132091985921 * pow2 (int 11 - 52)"
    by (rule fl_eqI[OF _ k]) (simp_all add: pow2_def)
  then have "fl ?x = 8708132091985921 / 2199023255552" by (simp add: pow2_def)
  then show ?thesis by (simp add: int_times_float_def fl_3600 one_plus_margin)
qed

text \<open>An acquisition that stops at 3960 s is inside the upper bound of the window
  (3000, 3600), as it is for the source's float product.\<close>

lemma covers_upper_boundary: "covers 3000 3960 (3000, 3600)"
  by (simp add: covers_def lower_bound_3000 upper_bound_3600)

lemma static_with_window_scenario:
  "explore_series
     [(''s1'', \<lparr>acq_datetime = 3000000000, frm_dur = 600000000, radio_start_time = 0,
               tracer = None\<rparr>)] (Some ''fbp'') (Some (3000, 3600)) =
   Inr \<lparr>descr = Some \<lparr>acq = [Kind Static, Suvr], time = (3000, 3600),
                       timings = Some [(3000, 3600)], idxs = (0, 0), frms = [''s1'']\<rparr>,
        tracer_after = Some ''fbp'', warnings = []\<rparr>"
  by (simp add: explore_series_def static_branch_def select_frames_def frame_timings_def
      frame_timing_def td_seconds_def classify_def infer_tracer_def covers_def
      lower_bound_3000 upper_bound_3600
      nearest_frame_def py_min_key_def frames_in_range_def)

text \<open>
  Claim C1. The code departs from the claim whenever no SUVr window is given: for every
  series that is classified static, whatever the tracer, the call without a user window
  raises TypeError at the coverage check and returns no descriptor, because the check reads
  the user window before the default window of the tracer is looked up.
\<close>

theorem static_without_window_raises:
  assumes "frame_timings srs_t \<noteq> []"
    and "classify (fst (hd (frame_timings srs_t))) (snd (last (frame_timings srs_t)))
           = Some Static"
  shows "explore_series srs_t tr None = Inl TypeError"
  using assms by (simp add: explore_series_def static_branch_def Let_def split: prod.splits)

theorem static_without_window_raises_witness:
  "explore_series
     [(''s1'', \<lparr>acq_datetime = 3000000000, frm_dur = 600000000, radio_start_time = 0,
               tracer = None\<rparr>)] (Some ''fbp'') None = Inl TypeError \<and>
   frame_timings
     [(''s1'', \<lparr>acq_datetime = 3000000000, frm_dur = 600000000, radio_start_time = 0,
               tracer = None\<rparr>)] = [(3000, 3600)] \<and>
   classify 3000 3600 = Some Static"
proof -
  let ?s = "[(''s1'', \<lparr>acq_datetime = 3000000000, frm_dur = 600000000, radio_start_time = 0,
               tracer = None\<rparr>)]"
  have t: "frame_timings ?s = [(3000, 3600)]"
    by (simp add: frame_timings_def frame_timing_def td_seconds_def)
  have c: "classify 3000 3600 = Some Static"
    by (simp add: classify_def)
  have "explore_series ?s (Some ''fbp'') None = Inl TypeError"
    by (rule static_without_window_raises) (simp_all add: t c)
  then show ?thesis using t c by simp
qed

subsection \<open>Frame timings\<close>

lemma td_seconds_mono:
  assumes "0 \<le> x" and "x \<le> y" and "y < 86400000000"
  shows "td_seconds x \<le> td_seconds y"
proof -
  have s: "td_seconds z = z div 1000000" if "0 \<le> z" "z < 86400000000" for z
  proof -
    have "0 \<le> z div 1000000" using that by simp
    moreover have "z div 1000000 < 86400" using that by simp
    ultimately show ?thesis by (simp add: td_seconds_def)
  qed
  have "x div 1000000 \<le> y div 1000000" using assms by (simp add: zdiv_mono1)
  then show ?thesis using assms s[of x] s[of y] by simp
qed

text \<open>Within the first day after the administration start the timings are monotone: when
  no frame precedes the administration start, the frames share the administration start and
  the duration, and every frame stops less than 24 hours after it.\<close>

lemma frame_timings_monotone:
  assumes "sorted (map (\<lambda>(k, v). acq_datetime v) srs_t)"
    and "\<forall>(k, v) \<in> set srs_t. radio_start_time v = r \<and> frm_dur v = d \<and>
           r \<le> acq_datetime v \<and> acq_datetime v + d - r < 86400000000"
    and "0 \<le> d"
  shows "sorted (map fst (frame_timings srs_t)) \<and> sorted (map snd (frame_timings srs_t))"
  using assms(1,2)
proof (induction srs_t)
  case Nil
  then show ?case by (simp add: frame_timings_def)
next
  case (Cons p ps)
  obtain k v where p: "p = (k, v)" by (cases p)
  have ih: "sorted (map fst (frame_timings ps)) \<and> sorted (map snd (frame_timings ps))"
    using Cons by simp
  have pv: "radio_start_time v = r" "frm_dur v = d" "r \<le> acq_datetime v"
    "acq_datetime v + d - r < 86400000000" using Cons.prems(2) p by auto
  have "fst (frame_timing v) \<le> fst (frame_timing v') \<and>
        snd (frame_timing v) \<le> snd (frame_timing v')" if "(k', v') \<in> set ps" for k' v'
  proof -
    have le: "acq_datetime v \<le> acq_datetime v'" using Cons.prems(1) p that by force
    have pv': "radio_start_time v' = r" "frm_dur v' = d" "r \<le> acq_datetime v'"
      "acq_datetime v' + d - r < 86400000000" using Cons.prems(2) that by auto
    have a: "td_seconds (acq_datetime v - r) \<le> td_seconds (acq_datetime v' - r)"
      using pv pv' le assms(3) by (intro td_seconds_mono) auto
    have b: "td_seconds (acq_datetime v + d - r) \<le> td_seconds (acq_datetime v' + d - r)"
      using pv pv' le assms(3) by (intro td_seconds_mono) auto
    show ?thesis using a b pv pv' by (simp add: frame_timing_def)
  qed
  then show ?case using ih p by (auto simp: frame_timings_def)
qed

text \<open>
  Claim C8. The code departs from the claim when a frame precedes the administration start.
  With the administration at 10:00:00, a frame of 20 s acquired at 09:59:50 and a frame of
  20 s acquired at 10:00:10, the acquisition times increase, and the timings are (86390, 10)
  and (10, 30): the first start is larger than the second, and larger than its own stop.
\<close>

theorem frame_timings_wrap:
  "frame_timings
     [(''f0'', \<lparr>acq_datetime = 35990000000, frm_dur = 20000000,
               radio_start_time = 36000000000, tracer = None\<rparr>),
      (''f1'', \<lparr>acq_datetime = 36010000000, frm_dur = 20000000,
               radio_start_time = 36000000000, tracer = None\<rparr>)]
     = [(86390, 10), (10, 30)] \<and>
   \<not> sorted (map fst [(86390, 10), (10, 30 :: int)] :: int list)"
  by (simp add: frame_timings_def frame_timing_def td_seconds_def)

subsection \<open>Static image builder\<close>

text \<open>
  Claim C9. The code departs from the claim at the frame index equal to the number of frames.
  For every image of \<open>nfrm > 1\<close> frames (valid indices 0 to \<open>nfrm - 1\<close>) and the
  requested frames \<open>[nfrm]\<close>, the test of the frames passes, since it compares with
  \<open>nfrm < max(frames)\<close>; when the static image is built, the index \<open>nfrm\<close> then reaches
  the frame summation, which raises IndexError on the image data.
\<close>

theorem frame_index_nfrm_passes_check:
  assumes "1 < hdr_dim4 (image a)"
    and "int (length (im (image a))) = hdr_dim4 (image a)"
    and "frames a = Some [hdr_dim4 (image a)]"
    and "resolve_pet (pet_path a) = Inr f"
    and "\<not> fstat_is_file a \<or> force a"
  shows "check_frames (hdr_dim4 (image a)) (frames a) = Inr [hdr_dim4 (image a)] \<and>
         take_frames (im (image a)) [hdr_dim4 (image a)] = Inl IndexError \<and>
         preproc_suvr a = (Inl IndexError, None)"
proof -
  have c: "check_frames (hdr_dim4 (image a)) (frames a) = Inr [hdr_dim4 (image a)]"
    using assms(3) by (simp add: check_frames_def py_max_def)
  have t: "take_frames (im (image a)) [hdr_dim4 (image a)] = Inl IndexError"
    using assms(2) by (simp add: take_frames_def)
  have b: "build_static a (hdr_dim4 (image a)) [hdr_dim4 (image a)] = Inl IndexError"
    using assms(1,5) t by (auto simp: build_static_def)
  have "preproc_suvr a = (Inl IndexError, None)"
    using assms(4) c b by (simp add: preproc_suvr_def)
  then show ?thesis using c t by simp
qed

theorem frame_index_nfrm_passes_check_witness:
  "check_frames 3 (Some [3]) = Inr [3] \<and>
   take_frames [[1], [2], [3]] [3] = Inl IndexError \<and>
   preproc_suvr
     \<lparr>pet_path = \<lparr>path_exists = True, is_nifti_file = True, is_dicom_dir = False,
                  pet_name = ''pet.nii.gz'', converted = []\<rparr>,
      image = \<lparr>hdr_dim4 = 3, im = [[1], [2], [3]]\<rparr>,
      frames = Some [3], fname = ''pet_static.nii.gz'', fstat_is_file = False,
      com_correction = True, force = True,
      centre_mass_corr = (\<lambda>v. \<lparr>fim = ''com.nii.gz'', com_abs = []\<rparr>)\<rparr>
     = (Inl IndexError, None)"
  using frame_index_nfrm_passes_check[of
     "\<lparr>pet_path = \<lparr>path_exists = True, is_nifti_file = True, is_dicom_dir = False,
                  pet_name = ''pet.nii.gz'', converted = []\<rparr>,
      image = \<lparr>hdr_dim4 = 3, im = [[1], [2], [3]]\<rparr>,
      frames = Some [3], fname = ''pet_static.nii.gz'', fstat_is_file = False,
      com_correction = True, force = True,
      centre_mass_corr = (\<lambda>v. \<lparr>fim = ''com.nii.gz'', com_abs = []\<rparr>)\<rparr>" "''pet.nii.gz''"]
  by (simp add: resolve_pet_def)

text \<open>
  Claim C10. Whenever the centre-of-mass branch is not executed, because
  \<^verbatim>\<open>com_correction\<close> is false or because the static file exists and \<^verbatim>\<open>force\<close> is false,
  \<^verbatim>\<open>preproc_suvr\<close> never returns a result dictionary; and every such call that gets as far
  as the return statement (the path resolves, the frames pass the test and the static image
  step does not raise) raises the unbound-local error for \<^verbatim>\<open>fsuvr_com\<close>.
\<close>

theorem preproc_suvr_unbound_fsuvr_com:
  assumes "\<not> com_correction a \<or> (fstat_is_file a \<and> \<not> force a)"
  shows "(\<forall>r. fst (preproc_suvr a) \<noteq> Inr r) \<and>
         (\<forall>fpet frs res. resolve_pet (pet_path a) = Inr fpet \<longrightarrow>
            check_frames (hdr_dim4 (image a)) (frames a) = Inr frs \<longrightarrow>
            build_static a (hdr_dim4 (image a)) frs = Inr res \<longrightarrow>
            fst (preproc_suvr a) = Inl UnboundLocalError)"
proof -
  have n: "snd res = None" if "build_static a nfrm frs = Inr res" for nfrm frs res
    using that assms by (auto simp: build_static_def split: if_splits sum.splits)
  have n': "build_static a nfrm frs \<noteq> Inr (wr, Some fc)" for nfrm frs wr fc
    using n[of nfrm frs "(wr, Some fc)"] by auto
  have 1: "fst (preproc_suvr a) \<noteq> Inr r" for r
    by (auto simp: preproc_suvr_def Let_def n' split: sum.splits prod.splits option.splits)
  have 2: "fst (preproc_suvr a) = Inl UnboundLocalError"
    if "resolve_pet (pet_path a) = Inr fpet"
      "check_frames (hdr_dim4 (image a)) (frames a) = Inr frs"
      "build_static a (hdr_dim4 (image a)) frs = Inr res" for fpet frs res
    using that n[OF that(3)] by (cases res) (simp add: preproc_suvr_def Let_def)
  show ?thesis using 1 2 by blast
qed

theorem preproc_suvr_unbound_fsuvr_com_witness:
  "preproc_suvr
     \<lparr>pet_path = \<lparr>path_exists = True, is_nifti_file = True, is_dicom_dir = False,
                  pet_name = ''pet.nii.gz'', converted = []\<rparr>,
      image = \<lparr>hdr_dim4 = 2, im = [[1, 2], [3, 4]]\<rparr>,
      frames = None, fname = ''pet_static.nii.gz'', fstat_is_file = True,
      com_correction = True, force = False,
      centre_mass_corr = (\<lambda>v. \<lparr>fim = ''com.nii.gz'', com_abs = []\<rparr>)\<rparr>
     = (Inl UnboundLocalError, None) \<and>
   preproc_suvr
     \<lparr>pet_path = \<lparr>path_exists = True, is_nifti_file = True, is_dicom_dir = False,
                  pet_name = ''pet.nii.gz'', converted = []\<rparr>,
      image = \<lparr>hdr_dim4 = 2, im = [[1, 2], [3, 4]]\<rparr>,
      frames = None, fname = ''pet_static.nii.gz'', fstat_is_file = False,
      com_correction = False, force = True,
      centre_mass_corr = (\<lambda>v. \<lparr>fim = ''com.nii.gz'', com_abs = []\<rparr>)\<rparr>
     = (Inl UnboundLocalError, Some [4, 6])"
proof -
  let ?p = "\<lparr>path_exists = True, is_nifti_file = True, is_dicom_dir = False,
                  pet_name = ''pet.nii.gz'', converted = []\<rparr>"
  let ?a = "\<lparr>pet_path = ?p,
      image = \<lparr>hdr_dim4 = 2, im = [[1, 2], [3, 4]]\<rparr>,
      frames = None, fname = ''pet_static.nii.gz'', fstat_is_file = True,
      com_correction = True, force = False,
      centre_mass_corr = (\<lambda>v. \<lparr>fim = ''com.nii.gz'', com_abs = []\<rparr>)\<rparr>"
  let ?b = "\<lparr>pet_path = ?p,
      image = \<lparr>hdr_dim4 = 2, im = [[1, 2], [3, 4]]\<rparr>,
      frames = None, fname = ''pet_static.nii.gz'', fstat_is_file = False,
      com_correction = False, force = True,
      centre_mass_corr = (\<lambda>v. \<lparr>fim = ''com.nii.gz'', com_abs = []\<rparr>)\<rparr>"
  have ha: "\<not> com_correction ?a \<or> (fstat_is_file ?a \<and> \<not> force ?a)" by simp
  have hb: "\<not> com_correction ?b \<or> (fstat_is_file ?b \<and> \<not> force ?b)" by simp
  have ra: "resolve_pet (pet_path ?a) = Inr ''pet.nii.gz''" by (simp add: resolve_pet_def)
  have rb: "resolve_pet (pet_path ?b) = Inr ''pet.nii.gz''" by (simp add: resolve_pet_def)
  have ca: "check_frames (hdr_dim4 (image ?a)) (frames ?a) = Inr [0, 1]"
    by (simp add: check_frames_def arange_def upt_rec)
  have cb: "check_frames (hdr_dim4 (image ?b)) (frames ?b) = Inr [0, 1]"
    by (simp add: check_frames_def arange_def upt_rec)
  have ba: "build_static ?a (hdr_dim4 (image ?a)) [0, 1] = Inr (None, None)"
    by (simp add: build_static_def)
  have bb: "build_static ?b (hdr_dim4 (image ?b)) [0, 1] = Inr (Some [4, 6], None)"
    by (simp add: build_static_def take_frames_def sum_axis0_def vol_size_def)
  have fa: "fst (preproc_suvr ?a) = Inl UnboundLocalError"
    using preproc_suvr_unbound_fsuvr_com[OF ha] ra ca ba by blast
  have fb: "fst (preproc_suvr ?b) = Inl UnboundLocalError"
    using preproc_suvr_unbound_fsuvr_com[OF hb] rb cb bb by blast
  have sa: "snd (preproc_suvr ?a) = None"
    using ra ca ba by (simp add: preproc_suvr_def)
  have sb: "snd (preproc_suvr ?b) = Some [4, 6]"
    using rb cb bb by (simp add: preproc_suvr_def)
  show ?thesis using fa fb sa sb by (metis prod.collapse)
qed

subsection \<open>VOI sampling\<close>

lemma length_roi_mask: "length (roi_mask lbls ris) = length lbls"
proof -
  have "length (fold (\<lambda>ri rmsk. map2 (\<or>) rmsk (map (\<lambda>l. l = ri) lbls)) ris m) = length lbls"
    if "length m = length lbls" for m
    using that by (induction ris arbitrary: m) auto
  then show ?thesis by (simp add: roi_mask_def)
qed

text \<open>On a four-dimensional image of one frame the sampling gives what is expected of the
  three-dimensional one: four voxels, the sum 10 and the average 2.5.\<close>

lemma extract_vois_4d_single_frame:
  "extract_vois (Im4 [[1, 2, 3, 4]]) [Some 1, Some 1, Some 1, Some 1] [(''voi'', [1])] None False
     = Inr [(''voi'', \<lparr>vox_no = 4, sum = Vec [10], avg = Vec [Fin (5 / 2)], fvoi = None,
                       roimsk = None\<rparr>)]"
  by (simp add: extract_vois_def voi_sample_def get_amsk_def mul_discarded_def denan_def
      roi_mask_def masked_sum_def)

text \<open>
  Claim C3. The code departs from the claim on every three-dimensional volume: with at least
  one VOI and an external mask that is absent or fits the atlas, \<^verbatim>\<open>extract_vois\<close> raises
  AttributeError at the test \<^verbatim>\<open>im.ndims==3\<close> and returns neither a sum nor an average.
\<close>

theorem extract_vois_3d_raises:
  assumes "get_amsk atlas_mask = Inr a"
    and "mul_discarded (roi_mask (denan atlas) ris) a = Inr ()"
  shows "extract_vois (Im3 v) atlas ((voi, ris) # rest) atlas_mask om = Inl AttributeError"
  using assms by (simp add: extract_vois_def voi_sample_def ndims_def)

theorem extract_vois_3d_raises_witness:
  "extract_vois (Im3 [1, 2, 3, 4]) [Some 1, Some 1, Some 1, Some 1] [(''voi'', [1])] None False
     = Inl AttributeError"
  by (rule extract_vois_3d_raises[where a = One]) (simp_all add: get_amsk_def mul_discarded_def)

lemma voi_loop_mask_ignored:
  assumes "length m = length lbls"
  shows "voi_loop img lbls (Arr m) om voi_dct = voi_loop img lbls One om voi_dct"
proof (induction voi_dct)
  case Nil
  show ?case by simp
next
  case (Cons p rest)
  obtain voi ris where p: "p = (voi, ris)" by (cases p)
  have "voi_sample img lbls (Arr m) ris om = voi_sample img lbls One ris om"
    using assms by (simp add: voi_sample_def mul_discarded_def length_roi_mask)
  then show ?case using Cons.IH p by (simp split: sum.splits)
qed

text \<open>
  Claim C4. The code departs from the claim: an external atlas mask of the shape of the atlas
  changes nothing. For every image, atlas and VOI dictionary the result with the mask is the
  result without it, so the voxels which the mask excludes are still counted and summed.
\<close>

theorem atlas_mask_ignored:
  assumes "length m = length atlas"
  shows "extract_vois img atlas voi_dct (Some (MaskArray m)) om =
         extract_vois img atlas voi_dct None om"
  using assms by (simp add: extract_vois_def get_amsk_def voi_loop_mask_ignored denan_def)

theorem atlas_mask_ignored_witness:
  "extract_vois (Im4 [[1, 2]]) [Some 1, Some 1] [(''voi'', [1])] (Some (MaskArray [1, 0])) False
     = Inr [(''voi'', \<lparr>vox_no = 2, sum = Vec [3], avg = Vec [Fin (3 / 2)], fvoi = None,
                       roimsk = None\<rparr>)]"
proof -
  have "length [1, 0 :: rat] = length [Some 1, Some (1::int)]" by simp
  from atlas_mask_ignored[OF this]
  have "extract_vois (Im4 [[1, 2]]) [Some 1, Some 1] [(''voi'', [1])] (Some (MaskArray [1, 0])) False
      = extract_vois (Im4 [[1, 2]]) [Some 1, Some 1] [(''voi'', [1])] None False" .
  then show ?thesis
    by (simp add: extract_vois_def voi_sample_def get_amsk_def mul_discarded_def denan_def
      roi_mask_def masked_sum_def)
qed

lemma masked_sum_empty:
  assumes "length v = length rmsk" and "filter id rmsk = []"
  shows "masked_sum v rmsk = Inr 0"
proof -
  have "\<forall>b\<in>set rmsk. \<not> b" using assms(2) by (simp add: filter_empty_conv)
  then have "filter snd (zip v rmsk) = []"
    by (auto simp: filter_empty_conv dest: set_zip_rightD)
  then show ?thesis using assms(1) by (simp add: masked_sum_def)
qed

lemma masked_sums_empty:
  assumes "\<forall>f\<in>set fs. length f = length rmsk" and "filter id rmsk = []"
  shows "masked_sums fs rmsk = Inr (replicate (length fs) 0)"
  using assms by (induction fs) (simp_all add: masked_sum_empty)

lemma masked_sums_total:
  assumes "\<forall>f\<in>set fs. length f = length rmsk"
  shows "\<exists>ss. masked_sums fs rmsk = Inr ss"
  using assms by (induction fs) (auto simp: masked_sum_def)

lemma voi_sample_4d:
  assumes "\<forall>f\<in>set fs. length f = length lbls"
    and "a = One \<or> (\<exists>m. a = Arr m \<and> length m = length lbls)"
  shows "\<exists>r. voi_sample (Im4 fs) lbls a ris om = Inr r \<and>
           (length (filter id (roi_mask lbls ris)) = 0 \<longrightarrow>
              r = \<lparr>vox_no = 0, sum = Vec (replicate (length fs) 0),
                   avg = Vec (replicate (length fs) NaN), fvoi = None,
                   roimsk = (if om then Some (roi_mask lbls ris) else None)\<rparr>)"
proof -
  have m: "mul_discarded (roi_mask lbls ris) a = Inr ()"
    using assms(2) by (auto simp: mul_discarded_def length_roi_mask)
  have l: "\<forall>f\<in>set fs. length f = length (roi_mask lbls ris)"
    using assms(1) by (simp add: length_roi_mask)
  show ?thesis
  proof (cases "filter id (roi_mask lbls ris) = []")
    case True
    have "masked_sums fs (roi_mask lbls ris) = Inr (replicate (length fs) 0)"
      using l True by (rule masked_sums_empty)
    then show ?thesis using True m by (simp add: voi_sample_def)
  next
    case False
    obtain ss where "masked_sums fs (roi_mask lbls ris) = Inr ss"
      using masked_sums_total[OF l] by blast
    then show ?thesis using False m by (simp add: voi_sample_def Let_def)
  qed
qed

lemma voi_loop_4d:
  assumes "\<forall>f\<in>set fs. length f = length lbls"
    and "a = One \<or> (\<exists>m. a = Arr m \<and> length m = length lbls)"
  shows "\<exists>out. voi_loop (Im4 fs) lbls a om voi_dct = Inr out \<and>
           map fst out = map fst voi_dct \<and>
           (\<forall>i<length voi_dct.
              length (filter id (roi_mask lbls (snd (voi_dct ! i)))) = 0 \<longrightarrow>
              snd (out ! i) =
                \<lparr>vox_no = 0, sum = Vec (replicate (length fs) 0),
                 avg = Vec (replicate (length fs) NaN), fvoi = None,
                 roimsk = (if om then Some (roi_mask lbls (snd (voi_dct ! i))) else None)\<rparr>)"
proof (induction voi_dct)
  case Nil
  show ?case by simp
next
  case (Cons p rest)
  obtain voi ris where p: "p = (voi, ris)" by (cases p)
  obtain r where r: "voi_sample (Im4 fs) lbls a ris om = Inr r"
    and r0: "length (filter id (roi_mask lbls ris)) = 0 \<longrightarrow>
              r = \<lparr>vox_no = 0, sum = Vec (replicate (length fs) 0),
                   avg = Vec (replicate (length fs) NaN), fvoi = None,
                   roimsk = (if om then Some (roi_mask lbls ris) else None)\<rparr>"
    using voi_sample_4d[OF assms, of ris om] by blast
  obtain out where o: "voi_loop (Im4 fs) lbls a om rest = Inr out"
    and o1: "map fst out = map fst rest"
    and o2: "\<forall>i<length rest.
              length (filter id (roi_mask lbls (snd (rest ! i)))) = 0 \<longrightarrow>
              snd (out ! i) =
                \<lparr>vox_no = 0, sum = Vec (replicate (length fs) 0),
                 avg = Vec (replicate (length fs) NaN), fvoi = None,
                 roimsk = (if om then Some (roi_mask lbls (snd (rest ! i))) else None)\<rparr>"
    using Cons.IH by blast
  have e: "voi_loop (Im4 fs) lbls a om (p # rest) = Inr ((voi, r) # out)"
    using p r o by simp
  have h: "\<forall>i<length (p # rest).
              length (filter id (roi_mask lbls (snd ((p # rest) ! i)))) = 0 \<longrightarrow>
              snd (((voi, r) # out) ! i) =
                \<lparr>vox_no = 0, sum = Vec (replicate (length fs) 0),
                 avg = Vec (replicate (length fs) NaN), fvoi = None,
                 roimsk = (if om then Some (roi_mask lbls (snd ((p # rest) ! i))) else None)\<rparr>"
  proof (intro allI impI)
    fix i assume i: "i < length (p # rest)"
      and z: "length (filter id (roi_mask lbls (snd ((p # rest) ! i)))) = 0"
    show "snd (((voi, r) # out) ! i) =
                \<lparr>vox_no = 0, sum = Vec (replicate (length fs) 0),
                 avg = Vec (replicate (length fs) NaN), fvoi = None,
                 roimsk = (if om then Some (roi_mask lbls (snd ((p # rest) ! i))) else None)\<rparr>"
    proof (cases i)
      case 0
      then show ?thesis using z r0 p by simp
    next
      case (Suc j)
      then have "j < length rest" using i by simp
      then show ?thesis using o2 z Suc by simp
    qed
  qed
  have m: "map fst ((voi, r) # out) = map fst (p # rest)" using o1 p by simp
  show ?case using e m h by blast
qed

text \<open>
  Claim C2, as stated, fails: a VOI whose mask matches no voxel of a four-dimensional image
  is returned with the voxel count 0 and the average NaN, and nothing is raised.
\<close>

theorem empty_voi_counterexample:
  "extract_vois (Im4 [[1, 2]]) [Some 1, Some 1] [(''voi'', [7])] None False
     = Inr [(''voi'', \<lparr>vox_no = 0, sum = Vec [0], avg = Vec [NaN], fvoi = None,
                       roimsk = None\<rparr>)]"
  by (simp add: extract_vois_def voi_sample_def get_amsk_def mul_discarded_def denan_def
      roi_mask_def masked_sum_def)

text \<open>
  Claim C2, amended. \<^verbatim>\<open>extract_vois\<close> makes no test for an empty VOI. For every
  four-dimensional image whose frames have the shape of the atlas, with no external mask or
  one of the shape of the atlas, the call raises nothing and returns one entry per VOI in the
  order of the dictionary; the entry of every VOI whose mask matches zero voxels has the
  voxel count 0, the sum 0 in every frame and the average NaN in every frame.
\<close>

theorem empty_voi_gives_nan:
  assumes "\<forall>f\<in>set fs. length f = length atlas"
    and "atlas_mask = None \<or> (\<exists>m. atlas_mask = Some (MaskArray m) \<and> length m = length atlas)"
  shows "\<exists>out. extract_vois (Im4 fs) atlas voi_dct atlas_mask om = Inr out \<and>
           map fst out = map fst voi_dct \<and>
           (\<forall>i<length voi_dct.
              length (filter id (roi_mask (denan atlas) (snd (voi_dct ! i)))) = 0 \<longrightarrow>
              snd (out ! i) =
                \<lparr>vox_no = 0, sum = Vec (replicate (length fs) 0),
                 avg = Vec (replicate (length fs) NaN), fvoi = None,
                 roimsk = (if om then Some (roi_mask (denan atlas) (snd (voi_dct ! i)))
                           else None)\<rparr>)"
proof -
  have l: "\<forall>f\<in>set fs. length f = length (denan atlas)"
    using assms(1) by (simp add: denan_def)
  from assms(2) obtain a where g: "get_amsk atlas_mask = Inr a"
    and a: "a = One \<or> (\<exists>m. a = Arr m \<and> length m = length (denan atlas))"
    by (auto simp: get_amsk_def denan_def)
  show ?thesis using voi_loop_4d[OF l a, of om voi_dct] g by (simp add: extract_vois_def)
qed

theorem empty_voi_gives_nan_witness:
  "extract_vois (Im4 [[1, 2], [3, 4]]) [Some 1, Some 1] [(''voi'', [7]), (''all'', [1])] None False
     = Inr [(''voi'', \<lparr>vox_no = 0, sum = Vec [0, 0], avg = Vec [NaN, NaN], fvoi = None,
                       roimsk = None\<rparr>),
            (''all'', \<lparr>vox_no = 2, sum = Vec [3, 7], avg = Vec [Fin (3 / 2), Fin (7 / 2)],
                       fvoi = None, roimsk = None\<rparr>)]"
proof -
  have a: "\<forall>f\<in>set [[1, 2], [3, 4 :: rat]]. length f = length [Some 1, Some (1::int)]" by simp
  have b: "(None :: mask_arg option) = None \<or>
     (\<exists>m. (None :: mask_arg option) = Some (MaskArray m) \<and> length m = length [Some 1, Some (1::int)])"
    by simp
  from empty_voi_gives_nan[OF a b, of "[(''voi'', [7]), (''all'', [1])]" False]
  obtain out where
    "extract_vois (Im4 [[1, 2], [3, 4]]) [Some 1, Some 1] [(''voi'', [7]), (''all'', [1])] None False
       = Inr out" by blast
  then show ?thesis
    by (simp add: extract_vois_def voi_sample_def get_amsk_def mul_discarded_def denan_def
      roi_mask_def masked_sum_def numeral_2_eq_2)
qed

subsection \<open>Frame alignment\<close>

lemma realign_writes_faligned:
  assumes "realign c td fs faligned w = (Inr RS, w1)"
  shows "faligned \<in> set (nii_files w1)"
  using assms
  by (auto simp: realign_def Let_def split: prod.splits sum.splits)

lemma align_suvr_success_file:
  assumes "align_suvr c td fs outp rf w = (Inr r, w')"
  shows "\<exists>k0 v0 rest. td = (k0, v0) # rest \<and>
     fpet r = ''SUVr_aligned_'' @ rem_chars c (series v0) @ ''.nii.gz'' \<and>
     fpet r \<in> set (nii_files w')"
proof (cases td)
  case Nil
  then show ?thesis using assms by (simp add: align_suvr_def)
next
  case (Cons p rest)
  obtain k0 v0 where p: "p = (k0, v0)" by (cases p)
  define fa where "fa = ''SUVr_aligned_'' @ rem_chars c (series v0) @ ''.nii.gz''"
  from assms Cons p obtain RS where
    ra: "realign c td fs fa (create_dir rsmpl_opth w) = (Inr RS, w')" and f: "fpet r = fa"
    by (auto simp: align_suvr_def Let_def fa_def split: if_splits prod.splits sum.splits)
  have "fa \<in> set (nii_files w')" using ra by (rule realign_writes_faligned)
  then show ?thesis using Cons p f fa_def by simp
qed

text \<open>A first run on two frames: two conversions, two registrations, one resampling, and
  the aligned file is written.\<close>

lemma align_suvr_first_run:
  "align_suvr
     \<lparr>rem_chars = (\<lambda>s. s),
      dcm2niix = (\<lambda>k. if k = ''a'' then [''10.nii''] else [''11.nii'']),
      coreg_spm = (\<lambda>f0 f1 i j. (''aff'', 1))\<rparr>
     [(''a'', \<lparr>tacq = ''10'', series = ''s''\<rparr>), (''b'', \<lparr>tacq = ''11'', series = ''s''\<rparr>)]
     [''a'', ''b''] None False
     \<lparr>nii_files = [], nii_dirs = [], purges = 0, conv_calls = 0, reg_calls = 0, rsmpl_calls = 0\<rparr>
   = (Inr \<lparr>fpet = ''SUVr_aligned_s.nii.gz'', Metric = [[0, 1], [1, 0]],
           faff = [[None, Some ''aff''], [Some ''aff'', None]], outpath = ''NIfTI_SUVr''\<rparr>,
      \<lparr>nii_files = [''SUVr_aligned_s.nii.gz'', ''10.nii'', ''11.nii''], nii_dirs = [],
       purges = 1, conv_calls = 2, reg_calls = 2, rsmpl_calls = 1\<rparr>)"
  by code_simp

text \<open>
  Claim C5. The code departs from the claim: after any run that returned a result, a second
  run without the force flag on the folder as the first run left it returns no handle; it
  raises the unbound-local error at the return statement. It does leave the files of the
  folder alone and adds no purge, conversion, registration or resampling call.
\<close>

theorem align_suvr_second_run_raises:
  assumes "align_suvr c td fs outp False w = (Inr r, w')"
  shows "align_suvr c td fs outp False w' = (Inl UnboundLocalError, create_dir rsmpl_opth w') \<and>
         nii_files (create_dir rsmpl_opth w') = nii_files w' \<and>
         purges (create_dir rsmpl_opth w') = purges w' \<and>
         conv_calls (create_dir rsmpl_opth w') = conv_calls w' \<and>
         reg_calls (create_dir rsmpl_opth w') = reg_calls w' \<and>
         rsmpl_calls (create_dir rsmpl_opth w') = rsmpl_calls w'"
proof -
  from align_suvr_success_file[OF assms] obtain k0 v0 rest where
    td: "td = (k0, v0) # rest" and
    f: "''SUVr_aligned_'' @ rem_chars c (series v0) @ ''.nii.gz'' \<in> set (nii_files w')"
    by auto
  have "align_suvr c td fs outp False w' = (Inl UnboundLocalError, create_dir rsmpl_opth w')"
    using td f by (simp add: align_suvr_def Let_def create_dir_def)
  then show ?thesis by (simp add: create_dir_def)
qed

theorem align_suvr_second_run_raises_witness:
  "align_suvr
     \<lparr>rem_chars = (\<lambda>s. s),
      dcm2niix = (\<lambda>k. if k = ''a'' then [''10.nii''] else [''11.nii'']),
      coreg_spm = (\<lambda>f0 f1 i j. (''aff'', 1))\<rparr>
     [(''a'', \<lparr>tacq = ''10'', series = ''s''\<rparr>), (''b'', \<lparr>tacq = ''11'', series = ''s''\<rparr>)]
     [''a'', ''b''] None False
     \<lparr>nii_files = [''SUVr_aligned_s.nii.gz'', ''10.nii'', ''11.nii''], nii_dirs = [],
      purges = 1, conv_calls = 2, reg_calls = 2, rsmpl_calls = 1\<rparr>
   = (Inl UnboundLocalError,
      \<lparr>nii_files = [''SUVr_aligned_s.nii.gz'', ''10.nii'', ''11.nii''],
       nii_dirs = [''SPM-aligned''],
       purges = 1, conv_calls = 2, reg_calls = 2, rsmpl_calls = 1\<rparr>)"
  using align_suvr_second_run_raises[OF align_suvr_first_run]
  by (simp add: create_dir_def rsmpl_opth_def)


end
